theory Spec2Isabelle
  imports Main "HOL-Library.AList" "HOL-Library.Sublist" "HOL-Library.Word"
begin

section \<open>JavaScript values read by the parser\<close>

text \<open>
  The address-like fields of the RPC's parsed JSON (\<open>source\<close>, \<open>destination\<close>,
  \<open>mint\<close>, \<open>owner\<close>, \<open>amount\<close>, ...) are strings when present. A field can be missing
  (\<open>undefined\<close>), \<open>null\<close>, or a string; the code tests them by truthiness, where the
  empty string counts as false.
\<close>

datatype jstr = JUndefined | JNull | JStr string

fun truthy :: "jstr \<Rightarrow> bool" where
  "truthy (JStr s) = (s \<noteq> [])"
| "truthy JUndefined = False"
| "truthy JNull = False"

text \<open>\<open>a || b\<close> on such values.\<close>

definition jor :: "jstr \<Rightarrow> jstr \<Rightarrow> jstr" where
  "jor a b = (if truthy a then a else b)"

text \<open>\<open>v != null\<close>: neither \<open>undefined\<close> nor \<open>null\<close>.\<close>

fun nonNull :: "jstr \<Rightarrow> bool" where
  "nonNull (JStr s) = True"
| "nonNull JUndefined = False"
| "nonNull JNull = False"

text \<open>
  A value used as a property key (\<open>obj[v]\<close>) is converted to a string first:
  \<open>obj[undefined]\<close> reads the property named \<open>"undefined"\<close>.
\<close>

fun prop_key :: "jstr \<Rightarrow> string" where
  "prop_key (JStr s) = s"
| "prop_key JUndefined = ''undefined''"
| "prop_key JNull = ''null''"

text \<open>
  \<open>String(n)\<close> for a number holding an integer: its decimal digits, with a minus sign
  when negative (JavaScript prints integers below \<open>10^21\<close> in magnitude this way; lamports
  are 64-bit counts).
\<close>

fun toDigits :: "nat \<Rightarrow> string" where
  "toDigits n =
     (if n < 10 then [''0123456789'' ! n]
      else toDigits (n div 10) @ [''0123456789'' ! (n mod 10)])"

definition String_of :: "int \<Rightarrow> string" where
  "String_of n = (if n < 0 then CHR ''-'' # toDigits (nat (- n)) else toDigits (nat n))"

text \<open>
  A plain JavaScript object used as a dictionary: an association list in insertion
  order with distinct keys. \<open>obj[k]\<close> is \<open>map_of obj k\<close> and \<open>obj[k] = v\<close> is
  \<open>AList.update k v obj\<close>, which replaces in place or appends. (Keys that name a property
  of \<open>Object.prototype\<close> are outside the model: account addresses are base-58 strings.)
\<close>

type_synonym 'v obj = "(string \<times> 'v) list"

definition UNKNOWN_MINT :: string where
  "UNKNOWN_MINT = ''UNKNOWN_MINT''"

definition TOKEN_PROGRAM_ID :: string where
  "TOKEN_PROGRAM_ID = ''TokenkegQfeZyiNwAJbNbGKPFXCWuBvf9Ss623VQ5DA''"

definition MIN_TOKEN_ACCOUNT_DATA_LEN :: nat where
  "MIN_TOKEN_ACCOUNT_DATA_LEN = 64"

section \<open>The parsed transaction\<close>

record token_amount =
  ta_amount :: jstr
  ta_decimals :: "int option"

text \<open>
  \<open>ix.parsed.info\<close>: the fields the parser reads. \<open>tokenAmount\<close> is an object or
  missing; \<open>lamports\<close> is a number or missing (\<open>None\<close>).
\<close>

record info =
  info_source :: jstr
  info_authority :: jstr
  info_destination :: jstr
  info_amount :: jstr
  info_tokenAmount :: "token_amount option"
  info_mint :: jstr
  info_lamports :: "int option"
  info_account :: jstr
  info_newAccount :: jstr
  info_owner :: jstr
  info_wallet :: jstr

record parsed =
  p_type :: jstr
  p_info :: "info option"

record instruction =
  ix_parsed :: "parsed option"

text \<open>An entry of \<open>accountKeys\<close>: a string, or an object with a \<open>pubkey\<close>.\<close>

datatype account_key = KeyString string | KeyObject jstr

record ui_token_amount =
  uta_decimals :: "int option"

text \<open>
  An entry of \<open>preTokenBalances\<close> / \<open>postTokenBalances\<close>. (A \<open>null\<close> entry is skipped by
  the code like one without \<open>accountIndex\<close>.)
\<close>

record token_balance =
  b_accountIndex :: "nat option"
  b_mint :: jstr
  b_owner :: jstr
  b_uiTokenAmount :: "ui_token_amount option"

record tx_meta =
  innerInstructions :: "instruction list list"
  preTokenBalances :: "token_balance list"
  postTokenBalances :: "token_balance list"

record parsed_tx =
  instructions :: "instruction list"
  accountKeys :: "account_key list"
  meta :: "tx_meta option"

section \<open>Raw transfer events: \<open>parseInstructionTransfers\<close>\<close>

record transfer =
  t_from :: jstr
  t_to :: jstr
  t_mint :: jstr
  t_amount :: string
  t_decimals :: int
  t_rawFrom :: jstr
  t_rawTo :: jstr

text \<open>\<open>info.tokenAmount && info.tokenAmount.amount\<close>\<close>

definition tokenAmount_amount :: "info \<Rightarrow> jstr" where
  "tokenAmount_amount i =
     (case info_tokenAmount i of None \<Rightarrow> JUndefined | Some ta \<Rightarrow> ta_amount ta)"

text \<open>\<open>(info.tokenAmount && info.tokenAmount.decimals) || 0\<close>\<close>

definition tokenAmount_decimals :: "info \<Rightarrow> int" where
  "tokenAmount_decimals i =
     (case info_tokenAmount i of
        None \<Rightarrow> 0
      | Some ta \<Rightarrow> (case ta_decimals ta of None \<Rightarrow> 0 | Some d \<Rightarrow> if d \<noteq> 0 then d else 0))"

text \<open>\<open>String(amt)\<close> of a string is the string; \<open>amt\<close> is never missing here.\<close>

fun String_jstr :: "jstr \<Rightarrow> string" where
  "String_jstr (JStr s) = s"
| "String_jstr JUndefined = ''undefined''"
| "String_jstr JNull = ''null''"

definition isTokenTransferType :: "jstr \<Rightarrow> bool" where
  "isTokenTransferType ty =
     (ty = JStr ''transfer'' \<or> ty = JStr ''transferChecked'' \<or>
      ty = JStr ''transferCheckedWithFee'')"

definition tokenEvent :: "info \<Rightarrow> transfer" where
  "tokenEvent i =
     (let rawFrom = jor (info_source i) (info_authority i);
          rawTo = info_destination i;
          amt = jor (info_amount i) (jor (tokenAmount_amount i) (JStr ''0''));
          mt = jor (info_mint i) (JStr UNKNOWN_MINT);
          dec = tokenAmount_decimals i
      in \<lparr>t_from = rawFrom, t_to = rawTo, t_mint = mt, t_amount = String_jstr amt,
          t_decimals = dec, t_rawFrom = rawFrom, t_rawTo = rawTo\<rparr>)"

text \<open>\<open>info.lamports\<close> as a condition: a number other than 0.\<close>

definition lamports_truthy :: "info \<Rightarrow> bool" where
  "lamports_truthy i = (case info_lamports i of None \<Rightarrow> False | Some n \<Rightarrow> n \<noteq> 0)"

definition String_lamports :: "info \<Rightarrow> string" where
  "String_lamports i =
     (case info_lamports i of None \<Rightarrow> ''undefined'' | Some n \<Rightarrow> String_of n)"

definition solEvent :: "info \<Rightarrow> jstr \<Rightarrow> transfer" where
  "solEvent i dest =
     \<lparr>t_from = info_source i, t_to = dest, t_mint = JStr ''SOL'',
      t_amount = String_lamports i, t_decimals = 9,
      t_rawFrom = info_source i, t_rawTo = dest\<rparr>"

definition parseInstructionTransfers :: "instruction \<Rightarrow> bool \<Rightarrow> transfer list" where
  "parseInstructionTransfers ix includeSolTransfers =
     (case ix_parsed ix of
        None \<Rightarrow> []
      | Some p \<Rightarrow>
          (case p_info p of
             None \<Rightarrow> []
           | Some i \<Rightarrow>
               if \<not> truthy (p_type p) then []
               else
                 (if isTokenTransferType (p_type p) then [tokenEvent i] else []) @
                 (if includeSolTransfers \<and> p_type p = JStr ''transfer'' \<and> lamports_truthy i
                  then [solEvent i (info_destination i)] else []) @
                 (if includeSolTransfers \<and> p_type p = JStr ''createAccount'' \<and> lamports_truthy i
                  then [solEvent i (info_newAccount i)] else [])))"

section \<open>Static hints: \<open>buildTokenAccountMapFromInstructions\<close>\<close>

text \<open>\<open>type.startsWith(p)\<close> for the type tag, a string.\<close>

fun startsWith :: "jstr \<Rightarrow> string \<Rightarrow> bool" where
  "startsWith (JStr s) p = prefix p s"
| "startsWith JUndefined p = False"
| "startsWith JNull p = False"

definition handleIx :: "instruction \<Rightarrow> jstr obj \<Rightarrow> jstr obj" where
  "handleIx ix m =
     (case ix_parsed ix of
        None \<Rightarrow> m
      | Some p \<Rightarrow>
          (case p_info p of
             None \<Rightarrow> m
           | Some i \<Rightarrow>
               if \<not> truthy (p_type p) then m
               else if startsWith (p_type p) ''initializeAccount'' \<and> truthy (info_account i) \<and>
                       truthy (info_owner i)
               then AList.update (prop_key (info_account i)) (info_owner i) m
               else if startsWith (p_type p) ''create'' \<and>
                       (truthy (info_account i) \<or> truthy (info_newAccount i)) \<and>
                       (truthy (info_owner i) \<or> truthy (info_wallet i))
               then AList.update (prop_key (jor (info_account i) (info_newAccount i)))
                      (jor (info_owner i) (info_wallet i)) m
               else m))"

definition buildTokenAccountMapFromInstructions :: "parsed_tx \<Rightarrow> tx_meta \<Rightarrow> jstr obj" where
  "buildTokenAccountMapFromInstructions parsedTx m =
     fold (\<lambda>grp acc. fold handleIx grp acc) (innerInstructions m)
       (fold handleIx (instructions parsedTx) [])"

section \<open>Balance snapshots: \<open>buildTokenAccountMapFromBalances\<close>\<close>

text \<open>
  What is known of one token account: \<open>{ mint, decimals, owner }\<close>, each property
  possibly unset. The same shape serves the entries of \<open>balMap\<close>, of
  \<open>tokenAccountData\<close> and of \<open>onChainCache\<close> (whose entries carry no decimals and may
  hold \<open>null\<close>).
\<close>

record acct_data =
  ad_mint :: jstr
  ad_owner :: jstr
  ad_decimals :: "int option"

definition emptyData :: acct_data where
  "emptyData = \<lparr>ad_mint = JUndefined, ad_owner = JUndefined, ad_decimals = None\<rparr>"

text \<open>\<open>obj[k] || {}\<close>\<close>

definition entryOf :: "acct_data obj \<Rightarrow> string \<Rightarrow> acct_data" where
  "entryOf m k = (case map_of m k of None \<Rightarrow> emptyData | Some e \<Rightarrow> e)"

text \<open>
  \<open>keys[b.accountIndex]\<close> and then \<open>typeof acctObj === "string" ? acctObj : acctObj?.pubkey\<close>;
  an index past the end reads \<open>undefined\<close>.
\<close>

definition acctAt :: "account_key list \<Rightarrow> nat \<Rightarrow> jstr" where
  "acctAt keys n =
     (if n < length keys
      then (case keys ! n of KeyString s \<Rightarrow> JStr s | KeyObject pk \<Rightarrow> pk)
      else JUndefined)"

text \<open>\<open>b.uiTokenAmount?.decimals\<close>\<close>

definition balDecimals :: "token_balance \<Rightarrow> int option" where
  "balDecimals b = (case b_uiTokenAmount b of None \<Rightarrow> None | Some u \<Rightarrow> uta_decimals u)"

text \<open>One round of the loop in \<open>gather\<close>.\<close>

definition gatherOne :: "account_key list \<Rightarrow> token_balance \<Rightarrow> acct_data obj \<Rightarrow> acct_data obj" where
  "gatherOne keys b m =
     (case b_accountIndex b of
        None \<Rightarrow> m
      | Some n \<Rightarrow>
          let acct = acctAt keys n in
          if \<not> truthy acct then m
          else
            let e0 = entryOf m (prop_key acct);
                e1 = (if truthy (b_mint b) then e0\<lparr>ad_mint := b_mint b\<rparr> else e0);
                e2 = (if truthy (b_owner b) then e1\<lparr>ad_owner := b_owner b\<rparr> else e1);
                e3 = (case balDecimals b of None \<Rightarrow> e2 | Some d \<Rightarrow> e2\<lparr>ad_decimals := Some d\<rparr>)
            in AList.update (prop_key acct) e3 m)"

definition gather :: "account_key list \<Rightarrow> token_balance list \<Rightarrow> acct_data obj \<Rightarrow> acct_data obj" where
  "gather keys balArr m = fold (gatherOne keys) balArr m"

definition buildTokenAccountMapFromBalances :: "parsed_tx \<Rightarrow> tx_meta \<Rightarrow> acct_data obj" where
  "buildTokenAccountMapFromBalances parsedTx m =
     gather (accountKeys parsedTx) (postTokenBalances m)
       (gather (accountKeys parsedTx) (preTokenBalances m) [])"

section \<open>The pre-network knowledge base\<close>

text \<open>
  \<open>tokenAccountData\<close> after the two loops of "unify": a copy of every \<open>balMap\<close> entry,
  then the owner of every \<open>ixMap\<close> entry written over it.
\<close>

definition copyEntry :: "string \<times> acct_data \<Rightarrow> acct_data obj \<Rightarrow> acct_data obj" where
  "copyEntry kv tad = AList.update (fst kv) (snd kv) tad"

definition setOwner :: "string \<times> jstr \<Rightarrow> acct_data obj \<Rightarrow> acct_data obj" where
  "setOwner kv tad = AList.update (fst kv) ((entryOf tad (fst kv))\<lparr>ad_owner := snd kv\<rparr>) tad"

definition unify :: "acct_data obj \<Rightarrow> jstr obj \<Rightarrow> acct_data obj" where
  "unify balMap ixMap = fold setOwner ixMap (fold copyEntry balMap [])"

section \<open>Addresses still to fetch\<close>

text \<open>
  \<open>!existing || !existing.owner || existing.mint === "UNKNOWN_MINT"\<close> for
  \<open>existing = tokenAccountData[addr]\<close>.
\<close>

definition needsFetch :: "acct_data obj \<Rightarrow> jstr \<Rightarrow> bool" where
  "needsFetch tad addr =
     (case map_of tad (prop_key addr) of
        None \<Rightarrow> True
      | Some existing \<Rightarrow> \<not> truthy (ad_owner existing) \<or> ad_mint existing = JStr UNKNOWN_MINT)"

text \<open>A \<open>Set\<close> keeps its elements in insertion order; \<open>add\<close> of a member changes nothing.\<close>

definition setAdd :: "jstr \<Rightarrow> jstr list \<Rightarrow> jstr list" where
  "setAdd a s = (if a \<in> set s then s else s @ [a])"

definition addIfNeeded :: "acct_data obj \<Rightarrow> jstr \<Rightarrow> jstr list \<Rightarrow> jstr list" where
  "addIfNeeded tad addr s = (if needsFetch tad addr then setAdd addr s else s)"

definition addressesToFetch :: "acct_data obj \<Rightarrow> transfer list \<Rightarrow> jstr list" where
  "addressesToFetch tad transfers =
     fold (\<lambda>t s. addIfNeeded tad (t_rawTo t) (addIfNeeded tad (t_rawFrom t) s)) transfers []"

section \<open>The on-chain resolver: \<open>fetchMultipleTokenAccountInfos\<close>\<close>

text \<open>
  What \<open>getMultipleAccountsInfo\<close> returns for one address: \<open>null\<close> (\<open>None\<close>) or the
  owning program (by its base-58 name, which \<open>equals\<close> compares) and the data bytes.
\<close>

record account_info =
  ai_owner :: string
  ai_data :: "8 word list"

datatype error = InvalidPublicKey | RpcError

text \<open>
  What the run takes from outside the repository: the library's \<open>PublicKey\<close>
  constructor, which throws on an input that is no public key
  (\<open>PublicKey_accepts\<close> tells when it returns), the connection's batched lookup
  (\<open>None\<close> when the call rejects), \<open>toBase58\<close> of 32 bytes, and the double-precision
  arithmetic of \<open>parseFloat\<close> and of \<open>rawNum / Math.pow(10, d)\<close>, whose results are values
  of the type \<open>'f\<close>.
\<close>

record 'f world =
  PublicKey_accepts :: "jstr \<Rightarrow> bool"
  getMultipleAccountsInfo :: "jstr list \<Rightarrow> account_info option list option"
  toBase58 :: "8 word list \<Rightarrow> string"
  parseFloat :: "string \<Rightarrow> 'f"
  divPow10 :: "'f \<Rightarrow> int \<Rightarrow> 'f"

definition notResolved :: acct_data where
  "notResolved = \<lparr>ad_mint = JNull, ad_owner = JNull, ad_decimals = None\<rparr>"

text \<open>The body of the loop over \<open>accountInfos\<close>: what is stored for one returned info.\<close>

definition cacheEntry :: "'f world \<Rightarrow> account_info option \<Rightarrow> acct_data" where
  "cacheEntry w accountInfo =
     (case accountInfo of
        None \<Rightarrow> notResolved
      | Some ai \<Rightarrow>
          if ai_owner ai \<noteq> TOKEN_PROGRAM_ID then notResolved
          else if length (ai_data ai) < MIN_TOKEN_ACCOUNT_DATA_LEN then notResolved
          else
            \<lparr>ad_mint = JStr (toBase58 w (take 32 (ai_data ai))),
             ad_owner = JStr (toBase58 w (take 32 (drop 32 (ai_data ai)))),
             ad_decimals = None\<rparr>)"

text \<open>\<open>tokenAccounts[i]\<close>, \<open>undefined\<close> past the end.\<close>

definition addrAt :: "jstr list \<Rightarrow> nat \<Rightarrow> jstr" where
  "addrAt tokenAccounts n = (if n < length tokenAccounts then tokenAccounts ! n else JUndefined)"

definition storeInfo ::
  "'f world \<Rightarrow> jstr list \<Rightarrow> account_info option list \<Rightarrow> nat \<Rightarrow> acct_data obj \<Rightarrow> acct_data obj" where
  "storeInfo w tokenAccounts accountInfos n cache =
     AList.update (prop_key (addrAt tokenAccounts n)) (cacheEntry w (accountInfos ! n)) cache"

text \<open>
  Returns the log of the batched calls made (each with the addresses sent) and either
  the error thrown or the filled \<open>onChainCache\<close>.
\<close>

definition fetchMultipleTokenAccountInfos ::
  "'f world \<Rightarrow> jstr list \<Rightarrow> acct_data obj \<Rightarrow> jstr list list \<times> (error + acct_data obj)" where
  "fetchMultipleTokenAccountInfos w tokenAccounts onChainCache =
     (if \<not> list_all (PublicKey_accepts w) tokenAccounts then ([], Inl InvalidPublicKey)
      else
        (case getMultipleAccountsInfo w tokenAccounts of
           None \<Rightarrow> ([tokenAccounts], Inl RpcError)
         | Some accountInfos \<Rightarrow>
             ([tokenAccounts],
              Inr (fold (storeInfo w tokenAccounts accountInfos) [0..<length accountInfos]
                     onChainCache))))"

section \<open>Merging the on-chain results\<close>

text \<open>
  What the loop "incorporate onChainCache results" leaves in \<open>tokenAccountData[addr]\<close>,
  from the entry there before (\<open>{}\<close> when there was none) and \<open>cached = onChainCache[addr]\<close>.
\<close>

definition mergedEntry :: "acct_data option \<Rightarrow> acct_data \<Rightarrow> acct_data" where
  "mergedEntry cached e0 =
     (let e1 = (case cached of
                  None \<Rightarrow> e0
                | Some c \<Rightarrow> if truthy (ad_owner c) then e0\<lparr>ad_owner := ad_owner c\<rparr> else e0);
          e2 = (case cached of
                  None \<Rightarrow> e1
                | Some c \<Rightarrow> if truthy (ad_mint c) then e1\<lparr>ad_mint := ad_mint c\<rparr> else e1)
      in e2)"

definition mergeOne :: "acct_data obj \<Rightarrow> jstr \<Rightarrow> acct_data obj \<Rightarrow> acct_data obj" where
  "mergeOne onChainCache addr tad =
     AList.update (prop_key addr)
       (mergedEntry (map_of onChainCache (prop_key addr)) (entryOf tad (prop_key addr))) tad"

definition mergeCache :: "acct_data obj \<Rightarrow> jstr list \<Rightarrow> acct_data obj \<Rightarrow> acct_data obj" where
  "mergeCache onChainCache toFetch tad = fold (mergeOne onChainCache) toFetch tad"

section \<open>Reconciliation\<close>

text \<open>"Rewrite ephemeral token accounts => real owners"\<close>

definition rewriteOwners :: "acct_data obj \<Rightarrow> transfer \<Rightarrow> transfer" where
  "rewriteOwners tad t =
     (let t1 = (case map_of tad (prop_key (t_rawFrom t)) of
                  None \<Rightarrow> t
                | Some fData \<Rightarrow> if truthy (ad_owner fData) then t\<lparr>t_from := ad_owner fData\<rparr> else t)
      in (case map_of tad (prop_key (t_rawTo t)) of
            None \<Rightarrow> t1
          | Some toData \<Rightarrow> if truthy (ad_owner toData) then t1\<lparr>t_to := ad_owner toData\<rparr> else t1))"

text \<open>\<open>if (d.decimals != null) t.decimals = d.decimals\<close>\<close>

definition takeDecimals :: "acct_data \<Rightarrow> transfer \<Rightarrow> transfer" where
  "takeDecimals d t = (case ad_decimals d of None \<Rightarrow> t | Some n \<Rightarrow> t\<lparr>t_decimals := n\<rparr>)"

text \<open>\<open>d.decimals != null && d.decimals > 0\<close>\<close>

definition hasPositiveDecimals :: "acct_data \<Rightarrow> bool" where
  "hasPositiveDecimals d = (case ad_decimals d of None \<Rightarrow> False | Some n \<Rightarrow> n > 0)"

definition fixMint :: "acct_data \<Rightarrow> acct_data \<Rightarrow> transfer \<Rightarrow> transfer" where
  "fixMint fData toData t =
     (if t_mint t = JStr UNKNOWN_MINT then
        (if truthy (ad_mint fData) then takeDecimals fData (t\<lparr>t_mint := ad_mint fData\<rparr>)
         else if truthy (ad_mint toData) then takeDecimals toData (t\<lparr>t_mint := ad_mint toData\<rparr>)
         else t)
      else t)"

definition fixDecimals :: "acct_data \<Rightarrow> acct_data \<Rightarrow> transfer \<Rightarrow> transfer" where
  "fixDecimals fData toData t =
     (if t_decimals t = 0 then
        (if hasPositiveDecimals fData then takeDecimals fData t
         else if hasPositiveDecimals toData then takeDecimals toData t
         else t)
      else t)"

text \<open>The body of the loop "Fix UNKNOWN_MINT or decimals=0".\<close>

definition backfill :: "acct_data obj \<Rightarrow> transfer \<Rightarrow> transfer" where
  "backfill tad t =
     (let fData = entryOf tad (prop_key (t_rawFrom t));
          toData = entryOf tad (prop_key (t_rawTo t))
      in fixDecimals fData toData (fixMint fData toData t))"

section \<open>The final records\<close>

record 'f resolved =
  fromTokenAccount :: jstr
  toTokenAccount :: jstr
  fromUserAccount :: jstr
  toUserAccount :: jstr
  r_amount :: string
  r_mint :: jstr
  r_decimals :: int
  uiAmount :: "'f option"

text \<open>
  \<open>isNaN(parseFloat(s))\<close>, by the language's definition of \<open>parseFloat\<close>: leading white
  space is skipped, and the result is \<open>NaN\<close> unless what follows begins with a decimal
  literal (an optional sign, then \<open>Infinity\<close>, a digit, or a point and a digit). Text
  after the literal is ignored. The white space here is the ASCII one (tab, line feed,
  vertical tab, form feed, carriage return, space); JavaScript also skips the Unicode
  spaces, which have no 8-bit character.
\<close>

definition isWhiteSpace :: "char \<Rightarrow> bool" where
  "isWhiteSpace c = (c \<in> set [CHR 0x09, CHR 0x0A, CHR 0x0B, CHR 0x0C, CHR 0x0D, CHR 0x20])"

definition isDigit :: "char \<Rightarrow> bool" where
  "isDigit c = (c \<in> set ''0123456789'')"

fun dropSign :: "string \<Rightarrow> string" where
  "dropSign [] = []"
| "dropSign (c # cs) = (if c = CHR ''+'' \<or> c = CHR ''-'' then cs else c # cs)"

fun startsDecimalLiteral :: "string \<Rightarrow> bool" where
  "startsDecimalLiteral [] = False"
| "startsDecimalLiteral [c] = isDigit c"
| "startsDecimalLiteral (c # d # cs) =
     (isDigit c \<or> (c = CHR ''.'' \<and> isDigit d) \<or> prefix ''Infinity'' (c # d # cs))"

definition parseFloat_isNaN :: "string \<Rightarrow> bool" where
  "parseFloat_isNaN s = (\<not> startsDecimalLiteral (dropSign (dropWhile isWhiteSpace s)))"

text \<open>The function mapped over the transfers at the end.\<close>

definition finish :: "'f world \<Rightarrow> transfer \<Rightarrow> 'f resolved" where
  "finish w x =
     \<lparr>fromTokenAccount = t_rawFrom x,
      toTokenAccount = t_rawTo x,
      fromUserAccount = t_from x,
      toUserAccount = t_to x,
      r_amount = t_amount x,
      r_mint = t_mint x,
      r_decimals = t_decimals x,
      uiAmount =
        (if parseFloat_isNaN (t_amount x) then None
         else Some (divPow10 w (parseFloat w (t_amount x))
                      (if t_decimals x \<noteq> 0 then t_decimals x else 0)))\<rparr>"

section \<open>The run: \<open>parseTransfersFromSignature\<close>\<close>

definition rawTransfers :: "parsed_tx \<Rightarrow> tx_meta \<Rightarrow> bool \<Rightarrow> transfer list" where
  "rawTransfers parsedTx m includeSolTransfers =
     concat (map (\<lambda>ix. parseInstructionTransfers ix includeSolTransfers) (instructions parsedTx)) @
     concat (map (\<lambda>grp. concat (map (\<lambda>ix. parseInstructionTransfers ix includeSolTransfers) grp))
               (innerInstructions m))"

definition preNetworkData :: "parsed_tx \<Rightarrow> tx_meta \<Rightarrow> acct_data obj" where
  "preNetworkData parsedTx m =
     unify (buildTokenAccountMapFromBalances parsedTx m)
       (buildTokenAccountMapFromInstructions parsedTx m)"

definition reconcile :: "'f world \<Rightarrow> acct_data obj \<Rightarrow> transfer list \<Rightarrow> 'f resolved list" where
  "reconcile w tad transfers =
     map (finish w) (map (backfill tad) (map (rewriteOwners tad) transfers))"

text \<open>The single batched fetch, made only when there is an address to fetch.\<close>

definition fetchMissing ::
  "'f world \<Rightarrow> acct_data obj \<Rightarrow> transfer list \<Rightarrow> jstr list list \<times> (error + acct_data obj)" where
  "fetchMissing w tad transfers =
     (let toFetch = addressesToFetch tad transfers
      in if toFetch \<noteq> [] then fetchMultipleTokenAccountInfos w toFetch [] else ([], Inr []))"

text \<open>\<open>tokenAccountData\<close> after the loop "incorporate onChainCache results".\<close>

definition incorporate :: "acct_data obj \<Rightarrow> acct_data obj \<Rightarrow> transfer list \<Rightarrow> acct_data obj" where
  "incorporate onChainCache tad transfers =
     mergeCache onChainCache (addressesToFetch tad transfers) tad"

text \<open>The steps after the two partial maps have been unified.\<close>

definition resolveRun ::
  "'f world \<Rightarrow> acct_data obj \<Rightarrow> transfer list \<Rightarrow> jstr list list \<times> (error + 'f resolved list)" where
  "resolveRun w tad transfers =
     (case fetchMissing w tad transfers of
        (calls, Inl e) \<Rightarrow> (calls, Inl e)
      | (calls, Inr onChainCache) \<Rightarrow>
          (calls, Inr (reconcile w (incorporate onChainCache tad transfers) transfers)))"

text \<open>
  \<open>parsedTx\<close> is what \<open>getParsedTransaction\<close> returned (\<open>None\<close> for \<open>null\<close>). The result is
  the log of batched lookups together with the error thrown or the records returned.
\<close>

definition parseTransfersFromSignature ::
  "'f world \<Rightarrow> parsed_tx option \<Rightarrow> bool \<Rightarrow> jstr list list \<times> (error + 'f resolved list)" where
  "parseTransfersFromSignature w parsedTx includeSolTransfers =
     (case parsedTx of
        None \<Rightarrow> ([], Inr [])
      | Some tx \<Rightarrow>
          (case meta tx of
             None \<Rightarrow> ([], Inr [])
           | Some m \<Rightarrow>
               resolveRun w (preNetworkData tx m) (rawTransfers tx m includeSolTransfers)))"

section \<open>Vocabulary of the specification\<close>

text \<open>
  The backfill rules as the specification words them. Mint backfill: for an event whose
  mint is the sentinel, the first container among source, destination that has a mint
  gives the mint, and its decimals, when present, replace the event's.
\<close>

definition spec_mintBackfill :: "acct_data \<Rightarrow> acct_data \<Rightarrow> transfer \<Rightarrow> transfer" where
  "spec_mintBackfill src dst t =
     (if t_mint t = JStr UNKNOWN_MINT
      then (case find (\<lambda>c. truthy (ad_mint c)) [src, dst] of
              None \<Rightarrow> t
            | Some c \<Rightarrow>
                (case ad_decimals c of
                   None \<Rightarrow> t\<lparr>t_mint := ad_mint c\<rparr>
                 | Some d \<Rightarrow> t\<lparr>t_mint := ad_mint c, t_decimals := d\<rparr>))
      else t)"

text \<open>
  Decimals backfill: for an event whose decimals are 0, the first strictly positive
  decimals among source, destination replace them.
\<close>

definition spec_decimalsBackfill :: "acct_data \<Rightarrow> acct_data \<Rightarrow> transfer \<Rightarrow> transfer" where
  "spec_decimalsBackfill src dst t =
     (if t_decimals t = 0
      then (case find (\<lambda>d. 0 < d) (List.map_filter ad_decimals [src, dst]) of
              None \<Rightarrow> t
            | Some d \<Rightarrow> t\<lparr>t_decimals := d\<rparr>)
      else t)"


text \<open>
  A data source supplied a mint for the address \<open>a\<close>: the balance snapshots did, or the
  on-chain lookup did and \<open>a\<close> was among the addresses fetched. (Static hints carry
  owners only.)
\<close>

definition mintSupplied :: "acct_data obj \<Rightarrow> acct_data obj \<Rightarrow> jstr list \<Rightarrow> jstr \<Rightarrow> bool" where
  "mintSupplied balMap onChainCache fetched a =
     (truthy (ad_mint (entryOf balMap (prop_key a))) \<or>
      (a \<in> set fetched \<and> truthy (ad_mint (entryOf onChainCache (prop_key a)))))"

text \<open>A property that is unset or holds a non-empty string.\<close>

definition unsetOrString :: "jstr \<Rightarrow> bool" where
  "unsetOrString v = (v = JUndefined \<or> truthy v)"

section \<open>Example transactions\<close>

definition noInfo :: info where
  "noInfo = \<lparr>info_source = JUndefined, info_authority = JUndefined, info_destination = JUndefined,
     info_amount = JUndefined, info_tokenAmount = None, info_mint = JUndefined,
     info_lamports = None, info_account = JUndefined, info_newAccount = JUndefined,
     info_owner = JUndefined, info_wallet = JUndefined\<rparr>"

definition parsedIx :: "string \<Rightarrow> info \<Rightarrow> instruction" where
  "parsedIx ty i = \<lparr>ix_parsed = Some \<lparr>p_type = JStr ty, p_info = Some i\<rparr>\<rparr>"

text \<open>
  A \<open>transferChecked\<close> from \<open>C1\<close> to \<open>C2\<close>, with an \<open>initializeAccount3\<close> in an inner
  group that names \<open>OwnerA\<close> as owner of \<open>C1\<close>, and a balance snapshot of \<open>C1\<close> that names
  \<open>OwnerB\<close>.
\<close>

definition checkedInfo :: info where
  "checkedInfo = noInfo\<lparr>info_source := JStr ''C1'', info_destination := JStr ''C2'',
     info_mint := JStr ''MintX'',
     info_tokenAmount := Some \<lparr>ta_amount = JStr ''1000000'', ta_decimals = Some 6\<rparr>\<rparr>"

definition hintInfo :: info where
  "hintInfo = noInfo\<lparr>info_account := JStr ''C1'', info_owner := JStr ''OwnerA''\<rparr>"

definition checkedMeta :: tx_meta where
  "checkedMeta = \<lparr>innerInstructions = [[parsedIx ''initializeAccount3'' hintInfo]],
     preTokenBalances =
       [\<lparr>b_accountIndex = Some 0, b_mint = JStr ''MintX'', b_owner = JStr ''OwnerB'',
         b_uiTokenAmount = Some \<lparr>uta_decimals = Some 6\<rparr>\<rparr>],
     postTokenBalances = []\<rparr>"

definition checkedTx :: parsed_tx where
  "checkedTx = \<lparr>instructions = [parsedIx ''transferChecked'' checkedInfo],
     accountKeys = [KeyString ''C1''], meta = Some checkedMeta\<rparr>"

text \<open>A plain \<open>transfer\<close> (no mint) from \<open>C1\<close> to \<open>C2\<close>; the only snapshot is of \<open>C9\<close>.\<close>

definition plainInfo :: info where
  "plainInfo = noInfo\<lparr>info_source := JStr ''C1'', info_destination := JStr ''C2'',
     info_authority := JStr ''A1'', info_amount := JStr ''500''\<rparr>"

definition plainMeta :: tx_meta where
  "plainMeta = \<lparr>innerInstructions = [],
     preTokenBalances =
       [\<lparr>b_accountIndex = Some 0, b_mint = JStr ''MintZ'', b_owner = JStr ''OwnerZ'',
         b_uiTokenAmount = Some \<lparr>uta_decimals = Some 9\<rparr>\<rparr>],
     postTokenBalances = []\<rparr>"

definition plainTx :: parsed_tx where
  "plainTx = \<lparr>instructions = [parsedIx ''transfer'' plainInfo],
     accountKeys = [KeyString ''C9''], meta = Some plainMeta\<rparr>"






text \<open>
  Two surroundings for the examples. Both accept every non-empty string as a public
  key and keep \<open>parseFloat(s) / Math.pow(10, d)\<close> as the pair \<open>(s, d)\<close> of its operands.
  In the first the lookup finds no account; in the second it finds a token account at
  \<open>C2\<close> whose bytes decode to the mint \<open>MintY\<close> and the owner \<open>OwnerY\<close>.
\<close>

definition notFoundWorld :: "(string \<times> int) world" where
  "notFoundWorld =
     \<lparr>PublicKey_accepts = truthy,
      getMultipleAccountsInfo = (\<lambda>accts. Some (map (\<lambda>a. None) accts)),
      toBase58 = (\<lambda>bytes. ''none''),
      parseFloat = (\<lambda>s. (s, 0)),
      divPow10 = (\<lambda>x d. (fst x, d))\<rparr>"

definition tokenAccountBytes :: "8 word list" where
  "tokenAccountBytes = replicate 32 1 @ replicate 32 2 @ replicate 8 0"

definition discoverWorld :: "(string \<times> int) world" where
  "discoverWorld =
     \<lparr>PublicKey_accepts = truthy,
      getMultipleAccountsInfo =
        (\<lambda>accts. Some (map (\<lambda>a. if a = JStr ''C2''
                                 then Some \<lparr>ai_owner = TOKEN_PROGRAM_ID, ai_data = tokenAccountBytes\<rparr>
                                 else None) accts)),
      toBase58 = (\<lambda>bytes. if bytes = replicate 32 1 then ''MintY'' else ''OwnerY''),
      parseFloat = (\<lambda>s. (s, 0)),
      divPow10 = (\<lambda>x d. (fst x, d))\<rparr>"

text \<open>Events and knowledge used to try the backfill and the merge on their own.\<close>

definition mintAEvent :: transfer where
  "mintAEvent = \<lparr>t_from = JStr ''C1'', t_to = JStr ''C2'', t_mint = JStr ''MintA'',
     t_amount = ''1000000'', t_decimals = 6, t_rawFrom = JStr ''C1'', t_rawTo = JStr ''C2''\<rparr>"

definition unknownEvent :: transfer where
  "unknownEvent = \<lparr>t_from = JStr ''C1'', t_to = JStr ''C2'', t_mint = JStr UNKNOWN_MINT,
     t_amount = ''500'', t_decimals = 0, t_rawFrom = JStr ''C1'', t_rawTo = JStr ''C2''\<rparr>"

definition knownData :: "acct_data obj" where
  "knownData =
     [(''C1'', \<lparr>ad_mint = JStr ''MintX'', ad_owner = JStr ''OwnerA'', ad_decimals = Some 6\<rparr>),
      (''C2'', \<lparr>ad_mint = JStr ''MintY'', ad_owner = JUndefined, ad_decimals = Some 2\<rparr>)]"

definition emptySnapshot :: token_balance where
  "emptySnapshot = \<lparr>b_accountIndex = Some 0, b_mint = JUndefined, b_owner = JNull,
     b_uiTokenAmount = None\<rparr>"

section \<open>Lemmas: values and dictionaries\<close>

lemma truthy_JStr: "truthy v = (\<exists>s. v = JStr s \<and> s \<noteq> [])"
  by (cases v) auto

lemma unsetOrString_nonNull: "unsetOrString v \<Longrightarrow> nonNull v = truthy v"
  by (cases v) (auto simp: unsetOrString_def)

lemma entryOf_update:
  "entryOf (AList.update k v m) k' = (if k' = k then v else entryOf m k')"
  by (simp add: entryOf_def update_conv')

lemma entryOf_empty: "entryOf [] k = emptyData"
  by (simp add: entryOf_def)

section \<open>Lemmas: backfill and owner rewriting\<close>

lemma fixMint_spec: "fixMint src dst t = spec_mintBackfill src dst t"
  by (auto simp: fixMint_def spec_mintBackfill_def takeDecimals_def split: option.splits)

lemma fixDecimals_spec: "fixDecimals src dst t = spec_decimalsBackfill src dst t"
  by (auto simp: fixDecimals_def spec_decimalsBackfill_def takeDecimals_def hasPositiveDecimals_def
      List.map_filter_def split: option.splits)

lemma rewriteOwners_frame:
  "rewriteOwners tad t = t\<lparr>t_from := t_from (rewriteOwners tad t), t_to := t_to (rewriteOwners tad t)\<rparr>"
  by (simp add: rewriteOwners_def Let_def split: option.splits)

lemma backfill_frame:
  "backfill tad t = t\<lparr>t_mint := t_mint (backfill tad t), t_decimals := t_decimals (backfill tad t)\<rparr>"
  by (simp add: backfill_def Let_def fixMint_def fixDecimals_def takeDecimals_def split: option.splits)

section \<open>Lemmas: the unified map\<close>

lemma fold_copyEntry_lookup:
  "map_of (fold copyEntry xs acc) = map_of acc ++ map_of (rev xs)"
proof (induction xs arbitrary: acc)
  case Nil
  then show ?case by simp
next
  case (Cons x xs)
  have "map_of (fold copyEntry (x # xs) acc) = map_of (copyEntry x acc) ++ map_of (rev xs)"
    using Cons.IH by simp
  also have "map_of (copyEntry x acc) = map_of acc ++ map_of [x]"
    by (cases x) (simp add: copyEntry_def update_conv')
  finally show ?case by (simp add: map_add_assoc del: map_add_upd)
qed

lemma map_of_rev_distinct: "distinct (map fst xs) \<Longrightarrow> map_of (rev xs) = map_of xs"
proof (induction xs)
  case Nil
  then show ?case by simp
next
  case (Cons x xs)
  then have none: "map_of xs (fst x) = None"
    by (simp add: map_of_eq_None_iff)
  have "map_of (rev (x # xs)) = map_of [x] ++ map_of xs"
    using Cons by simp
  also have "\<dots> = map_of (x # xs)"
    using none by (cases x) (auto simp: map_add_def fun_eq_iff split: option.splits)
  finally show ?case .
qed

lemma map_of_setOwner:
  "map_of (setOwner (a, ownr) acc) k =
     (if k = a then Some ((entryOf acc a)\<lparr>ad_owner := ownr\<rparr>) else map_of acc k)"
  by (simp add: setOwner_def update_conv')

lemma entryOf_setOwner:
  "entryOf (setOwner (a, ownr) acc) k =
     (if k = a then (entryOf acc a)\<lparr>ad_owner := ownr\<rparr> else entryOf acc k)"
  by (simp add: entryOf_def map_of_setOwner)

lemma fold_setOwner_lookup:
  "map_of (fold setOwner ix acc) k =
     (case map_of (rev ix) k of
        None \<Rightarrow> map_of acc k
      | Some ownr \<Rightarrow> Some ((entryOf acc k)\<lparr>ad_owner := ownr\<rparr>))"
proof (induction ix arbitrary: acc)
  case Nil
  then show ?case by simp
next
  case (Cons x ix)
  obtain a ownr where x: "x = (a, ownr)" by (cases x)
  have "map_of (fold setOwner (x # ix) acc) k =
     (case map_of (rev ix) k of
        None \<Rightarrow> map_of (setOwner x acc) k
      | Some o' \<Rightarrow> Some ((entryOf (setOwner x acc) k)\<lparr>ad_owner := o'\<rparr>))"
    using Cons.IH by simp
  also have "\<dots> =
     (case map_of (rev (x # ix)) k of
        None \<Rightarrow> map_of acc k
      | Some o' \<Rightarrow> Some ((entryOf acc k)\<lparr>ad_owner := o'\<rparr>))"
    by (auto simp: x map_of_setOwner entryOf_setOwner map_add_def split: option.splits)
  finally show ?case .
qed

lemma unify_lookup:
  assumes "distinct (map fst balMap)" and "distinct (map fst ixMap)"
  shows "map_of (unify balMap ixMap) k =
     (case map_of ixMap k of
        None \<Rightarrow> map_of balMap k
      | Some ownr \<Rightarrow> Some ((entryOf balMap k)\<lparr>ad_owner := ownr\<rparr>))"
proof -
  have "map_of (fold copyEntry balMap []) = map_of balMap"
    using assms(1) by (simp add: fold_copyEntry_lookup map_of_rev_distinct)
  then have "entryOf (fold copyEntry balMap []) k = entryOf balMap k" for k
    by (simp add: entryOf_def)
  then show ?thesis
    using assms(2) \<open>map_of (fold copyEntry balMap []) = map_of balMap\<close>
    by (simp add: unify_def fold_setOwner_lookup map_of_rev_distinct split: option.splits)
qed

lemma distinct_handleIx: "distinct (map fst m) \<Longrightarrow> distinct (map fst (handleIx ix m))"
  by (simp add: handleIx_def distinct_update split: option.splits)

lemma distinct_fold_handleIx:
  "distinct (map fst m) \<Longrightarrow> distinct (map fst (fold handleIx ixs m))"
  by (induction ixs arbitrary: m) (simp_all add: distinct_handleIx)

lemma distinct_ixMap: "distinct (map fst (buildTokenAccountMapFromInstructions tx m))"
proof -
  have "distinct (map fst acc) \<Longrightarrow>
        distinct (map fst (fold (\<lambda>grp acc. fold handleIx grp acc) grps acc))" for grps acc
    by (induction grps arbitrary: acc) (simp_all add: distinct_fold_handleIx)
  then show ?thesis
    by (simp add: buildTokenAccountMapFromInstructions_def distinct_fold_handleIx)
qed

lemma distinct_gatherOne: "distinct (map fst m) \<Longrightarrow> distinct (map fst (gatherOne keys b m))"
  by (simp add: gatherOne_def Let_def distinct_update split: option.splits)

lemma distinct_gather: "distinct (map fst m) \<Longrightarrow> distinct (map fst (gather keys bs m))"
  unfolding gather_def by (induction bs arbitrary: m) (simp_all add: distinct_gatherOne)

lemma distinct_balMap: "distinct (map fst (buildTokenAccountMapFromBalances tx m))"
  by (simp add: buildTokenAccountMapFromBalances_def distinct_gather)

section \<open>Lemmas: the set of addresses to fetch\<close>

lemma set_setAdd: "set (setAdd a s) = insert a (set s)"
  by (auto simp: setAdd_def)


lemma set_addIfNeeded:
  "set (addIfNeeded tad a s) = (if needsFetch tad a then insert a (set s) else set s)"
  by (simp add: addIfNeeded_def set_setAdd)


lemma set_fold_addresses:
  "set (fold (\<lambda>t s. addIfNeeded tad (t_rawTo t) (addIfNeeded tad (t_rawFrom t) s)) ts acc) =
     set acc \<union> {a. \<exists>t \<in> set ts. (a = t_rawFrom t \<or> a = t_rawTo t) \<and> needsFetch tad a}"
  by (induction ts arbitrary: acc) (auto simp: set_addIfNeeded split: if_splits)


lemma set_addressesToFetch:
  "set (addressesToFetch tad ts) =
     {a. \<exists>t \<in> set ts. (a = t_rawFrom t \<or> a = t_rawTo t) \<and> needsFetch tad a}"
  by (simp add: addressesToFetch_def set_fold_addresses)





section \<open>Lemmas: the on-chain cache\<close>

lemma fold_storeInfo_other:
  "k \<notin> (\<lambda>n. prop_key (addrAt accts n)) ` set ns \<Longrightarrow>
   map_of (fold (storeInfo w accts infos) ns c) k = map_of c k"
  by (induction ns arbitrary: c) (auto simp: storeInfo_def update_conv')

lemma fold_storeInfo_lookup:
  "distinct (map (\<lambda>n. prop_key (addrAt accts n)) ns) \<Longrightarrow> n \<in> set ns \<Longrightarrow>
   map_of (fold (storeInfo w accts infos) ns c) (prop_key (addrAt accts n)) =
     Some (cacheEntry w (infos ! n))"
proof (induction ns arbitrary: c)
  case Nil
  then show ?case by simp
next
  case (Cons a ns)
  show ?case
  proof (cases "n = a")
    case True
    then have "prop_key (addrAt accts n) \<notin> (\<lambda>n. prop_key (addrAt accts n)) ` set ns"
      using Cons.prems(1) by auto
    then show ?thesis
      using True by (simp add: fold_storeInfo_other) (simp add: storeInfo_def update_conv')
  next
    case False
    then show ?thesis using Cons by simp
  qed
qed

lemma distinct_keys_upt:
  assumes "distinct (map prop_key accts)" and "n \<le> length accts"
  shows "distinct (map (\<lambda>i. prop_key (addrAt accts i)) [0..<n])"
proof -
  have "map (\<lambda>i. prop_key (addrAt accts i)) [0..<n] = take n (map prop_key accts)"
    using assms(2) by (auto simp: list_eq_iff_nth_eq addrAt_def)
  then show ?thesis using assms(1) by (simp add: distinct_take)
qed

lemma fold_storeInfo_entries:
  "map_of (fold (storeInfo w accts infos) ns c) k = Some e \<Longrightarrow>
   map_of c k = Some e \<or> (\<exists>n. e = cacheEntry w (infos ! n))"
proof (induction ns arbitrary: c)
  case Nil
  then show ?case by simp
next
  case (Cons n ns)
  from Cons.IH[of "storeInfo w accts infos n c"] Cons.prems
  show ?case
    by (auto simp: storeInfo_def update_conv' split: if_splits)
qed

lemma take_as_nth: "n \<le> length xs \<Longrightarrow> take n xs = map (\<lambda>j. xs ! j) [0..<n]"
  by (simp add: list_eq_iff_nth_eq)

lemma slice_as_nth:
  "a + n \<le> length xs \<Longrightarrow> take n (drop a xs) = map (\<lambda>j. xs ! j) [a..<a + n]"
  by (simp add: list_eq_iff_nth_eq)

lemma cacheEntry_cases:
  "cacheEntry w accountInfo =
     (case accountInfo of
        None \<Rightarrow> \<lparr>ad_mint = JNull, ad_owner = JNull, ad_decimals = None\<rparr>
      | Some ai \<Rightarrow>
          if ai_owner ai \<noteq> TOKEN_PROGRAM_ID \<or> length (ai_data ai) < 64
          then \<lparr>ad_mint = JNull, ad_owner = JNull, ad_decimals = None\<rparr>
          else \<lparr>ad_mint = JStr (toBase58 w (map (\<lambda>j. ai_data ai ! j) [0..<32])),
                ad_owner = JStr (toBase58 w (map (\<lambda>j. ai_data ai ! j) [32..<64])),
                ad_decimals = None\<rparr>)"
proof (cases accountInfo)
  case None
  then show ?thesis by (simp add: cacheEntry_def notResolved_def)
next
  case (Some ai)
  show ?thesis
  proof (cases "ai_owner ai \<noteq> TOKEN_PROGRAM_ID \<or> length (ai_data ai) < 64")
    case True
    then show ?thesis
      using Some by (auto simp: cacheEntry_def notResolved_def MIN_TOKEN_ACCOUNT_DATA_LEN_def)
  next
    case False
    then have len: "64 \<le> length (ai_data ai)" by simp
    have "take 32 (ai_data ai) = map (\<lambda>j. ai_data ai ! j) [0..<32]"
      using len by (simp add: take_as_nth)
    moreover have "take 32 (drop 32 (ai_data ai)) = map (\<lambda>j. ai_data ai ! j) [32..<64]"
      using len slice_as_nth[of 32 32 "ai_data ai"] by simp
    ultimately show ?thesis
      using Some False by (simp add: cacheEntry_def MIN_TOKEN_ACCOUNT_DATA_LEN_def)
  qed
qed

section \<open>Lemmas: merging the cache\<close>

lemma mergedEntry_owner:
  "ad_owner (mergedEntry cached e) =
     (case cached of
        None \<Rightarrow> ad_owner e
      | Some c \<Rightarrow> if truthy (ad_owner c) then ad_owner c else ad_owner e)"
  by (simp add: mergedEntry_def Let_def split: option.splits)

lemma mergedEntry_mint:
  "ad_mint (mergedEntry cached e) =
     (case cached of
        None \<Rightarrow> ad_mint e
      | Some c \<Rightarrow> if truthy (ad_mint c) then ad_mint c else ad_mint e)"
  by (simp add: mergedEntry_def Let_def split: option.splits)

lemma mergedEntry_idem: "mergedEntry cached (mergedEntry cached e) = mergedEntry cached e"
  by (simp add: mergedEntry_def Let_def split: option.splits)

lemma mergeCache_lookup:
  "map_of (mergeCache c toFetch tad) k =
     (if k \<in> prop_key ` set toFetch then Some (mergedEntry (map_of c k) (entryOf tad k))
      else map_of tad k)"
  unfolding mergeCache_def
proof (induction toFetch arbitrary: tad)
  case Nil
  then show ?case by simp
next
  case (Cons a as)
  have step: "map_of (mergeOne c a tad) k' =
      (if k' = prop_key a then Some (mergedEntry (map_of c k') (entryOf tad k')) else map_of tad k')"
    for k'
    by (simp add: mergeOne_def update_conv')
  then have ent: "entryOf (mergeOne c a tad) k' =
      (if k' = prop_key a then mergedEntry (map_of c k') (entryOf tad k') else entryOf tad k')"
    for k'
    by (simp add: entryOf_def)
  show ?case
    by (simp add: Cons.IH step ent mergedEntry_idem)
qed

lemma entryOf_mergeCache:
  "entryOf (mergeCache c toFetch tad) k =
     (if k \<in> prop_key ` set toFetch then mergedEntry (map_of c k) (entryOf tad k)
      else entryOf tad k)"
  by (simp add: entryOf_def mergeCache_lookup)

section \<open>Lemmas: what the maps hold\<close>

lemma handleIx_truthy:
  assumes "\<And>k v. map_of m k = Some v \<Longrightarrow> truthy v" and "map_of (handleIx ix m) k = Some v"
  shows "truthy v"
  using assms
  by (auto simp: handleIx_def update_conv' jor_def split: option.splits if_splits)

lemma fold_handleIx_truthy:
  assumes "\<And>k v. map_of m k = Some v \<Longrightarrow> truthy v" and "map_of (fold handleIx ixs m) k = Some v"
  shows "truthy v"
  using assms
proof (induction ixs arbitrary: m)
  case Nil
  then show ?case by simp
next
  case (Cons ix ixs)
  show ?case
  proof (rule Cons.IH)
    show "\<And>k v. map_of (handleIx ix m) k = Some v \<Longrightarrow> truthy v"
      using Cons.prems(1) handleIx_truthy by blast
    show "map_of (fold handleIx ixs (handleIx ix m)) k = Some v"
      using Cons.prems(2) by simp
  qed
qed

lemma ixMap_truthy:
  assumes "map_of (buildTokenAccountMapFromInstructions tx m) k = Some v"
  shows "truthy v"
proof -
  have grp: "(\<And>k v. map_of acc k = Some v \<Longrightarrow> truthy v) \<Longrightarrow>
      map_of (fold (\<lambda>grp acc. fold handleIx grp acc) grps acc) k = Some v \<Longrightarrow> truthy v"
    for grps acc k v
  proof (induction grps arbitrary: acc)
    case Nil
    then show ?case by simp
  next
    case (Cons g grps)
    show ?case
    proof (rule Cons.IH)
      show "\<And>k v. map_of (fold handleIx g acc) k = Some v \<Longrightarrow> truthy v"
        using Cons.prems(1) fold_handleIx_truthy by blast
      show "map_of (fold (\<lambda>grp acc. fold handleIx grp acc) grps (fold handleIx g acc)) k = Some v"
        using Cons.prems(2) by simp
    qed
  qed
  have base: "\<And>k v. map_of (fold handleIx (instructions tx) []) k = Some v \<Longrightarrow> truthy v"
    by (rule fold_handleIx_truthy[where m = "[]"]) simp_all
  show ?thesis
    using grp[OF base] assms by (simp add: buildTokenAccountMapFromInstructions_def)
qed

lemma entryOf_gatherOne:
  "entryOf (gatherOne keys b m) k =
     (case b_accountIndex b of
        None \<Rightarrow> entryOf m k
      | Some n \<Rightarrow>
          if truthy (acctAt keys n) \<and> k = prop_key (acctAt keys n)
          then (entryOf m k)
                 \<lparr>ad_mint := (if truthy (b_mint b) then b_mint b else ad_mint (entryOf m k)),
                  ad_owner := (if truthy (b_owner b) then b_owner b else ad_owner (entryOf m k)),
                  ad_decimals := (case balDecimals b of None \<Rightarrow> ad_decimals (entryOf m k)
                                  | Some d \<Rightarrow> Some d)\<rparr>
          else entryOf m k)"
  by (auto simp: gatherOne_def Let_def entryOf_update split: option.splits)

lemma entryOf_gather_owner_ok:
  "(\<And>k. unsetOrString (ad_owner (entryOf m k))) \<Longrightarrow>
   unsetOrString (ad_owner (entryOf (gather keys bs m) k))"
  unfolding gather_def
proof (induction bs arbitrary: m k)
  case Nil
  then show ?case by simp
next
  case (Cons b bs)
  have "unsetOrString (ad_owner (entryOf (gatherOne keys b m) k'))" for k'
    using Cons.prems[of k'] by (auto simp: entryOf_gatherOne unsetOrString_def split: option.splits)
  then show ?case using Cons.IH by simp
qed

lemma balMap_owner_ok:
  "unsetOrString (ad_owner (entryOf (buildTokenAccountMapFromBalances tx m) k))"
  unfolding buildTokenAccountMapFromBalances_def
  by (intro entryOf_gather_owner_ok) (simp add: entryOf_empty emptyData_def unsetOrString_def)

lemma entryOf_preNetworkData:
  "entryOf (preNetworkData tx m) k =
     (case map_of (buildTokenAccountMapFromInstructions tx m) k of
        None \<Rightarrow> entryOf (buildTokenAccountMapFromBalances tx m) k
      | Some ownr \<Rightarrow> (entryOf (buildTokenAccountMapFromBalances tx m) k)\<lparr>ad_owner := ownr\<rparr>)"
  by (simp add: entryOf_def preNetworkData_def unify_lookup distinct_ixMap distinct_balMap
      split: option.splits)

lemma preNetworkData_owner_ok: "unsetOrString (ad_owner (entryOf (preNetworkData tx m) k))"
  using balMap_owner_ok[of tx m k] ixMap_truthy[of tx m k]
  by (auto simp: entryOf_preNetworkData unsetOrString_def split: option.splits)

lemma mergeCache_owner_ok:
  "unsetOrString (ad_owner (entryOf tad k)) \<Longrightarrow>
   unsetOrString (ad_owner (entryOf (mergeCache c toFetch tad) k))"
  by (auto simp: entryOf_mergeCache mergedEntry_owner unsetOrString_def split: option.splits)

lemma mergeCache_owner_mono:
  "truthy (ad_owner (entryOf tad k)) \<Longrightarrow> truthy (ad_owner (entryOf (mergeCache c toFetch tad) k))"
  by (auto simp: entryOf_mergeCache mergedEntry_owner split: option.splits)

section \<open>Lemmas: the run\<close>

lemma parseInstructionTransfers_from_raw:
  "t \<in> set (parseInstructionTransfers ix incl) \<Longrightarrow> t_from t = t_rawFrom t \<and> t_to t = t_rawTo t"
  by (auto simp: parseInstructionTransfers_def tokenEvent_def solEvent_def Let_def
      split: option.splits if_splits)

lemma rawTransfers_from_raw:
  "t \<in> set (rawTransfers tx m incl) \<Longrightarrow> t_from t = t_rawFrom t \<and> t_to t = t_rawTo t"
  by (auto simp: rawTransfers_def dest: parseInstructionTransfers_from_raw)

lemma reconcile_nth:
  "i < length ts \<Longrightarrow> reconcile w kb ts ! i = finish w (backfill kb (rewriteOwners kb (ts ! i)))"
  by (simp add: reconcile_def)

lemma length_reconcile: "length (reconcile w kb ts) = length ts"
  by (simp add: reconcile_def)

lemma t_from_backfill: "t_from (backfill kb t) = t_from t" "t_to (backfill kb t) = t_to t"
  "t_rawFrom (backfill kb t) = t_rawFrom t" "t_rawTo (backfill kb t) = t_rawTo t"
  "t_amount (backfill kb t) = t_amount t"
  by (simp_all add: backfill_def Let_def fixMint_def fixDecimals_def takeDecimals_def
      split: option.splits)

lemma rewriteOwners_fields:
  "t_from (rewriteOwners kb t) =
     (case map_of kb (prop_key (t_rawFrom t)) of
        None \<Rightarrow> t_from t
      | Some e \<Rightarrow> if truthy (ad_owner e) then ad_owner e else t_from t)"
  "t_to (rewriteOwners kb t) =
     (case map_of kb (prop_key (t_rawTo t)) of
        None \<Rightarrow> t_to t
      | Some e \<Rightarrow> if truthy (ad_owner e) then ad_owner e else t_to t)"
  "t_rawFrom (rewriteOwners kb t) = t_rawFrom t" "t_rawTo (rewriteOwners kb t) = t_rawTo t"
  "t_mint (rewriteOwners kb t) = t_mint t" "t_decimals (rewriteOwners kb t) = t_decimals t"
  "t_amount (rewriteOwners kb t) = t_amount t"
  by (simp_all add: rewriteOwners_def Let_def split: option.splits)

lemma fetchMissing_accepts:
  assumes "fetchMissing w tad ts = (calls, Inr cache)" and "a \<in> set (addressesToFetch tad ts)"
  shows "PublicKey_accepts w a"
proof -
  have "addressesToFetch tad ts \<noteq> []" using assms(2) by auto
  then have "list_all (PublicKey_accepts w) (addressesToFetch tad ts)"
    using assms(1)
    by (auto simp: fetchMissing_def Let_def fetchMultipleTokenAccountInfos_def split: if_splits)
  then show ?thesis using assms(2) by (simp add: list_all_iff)
qed

lemma resolveRun_Inr:
  "fetchMissing w tad ts = (calls, Inr cache) \<Longrightarrow>
   resolveRun w tad ts = (calls, Inr (reconcile w (incorporate cache tad ts) ts))"
  by (simp add: resolveRun_def)

lemma unresolved_endpoint_fetched:
  assumes "t \<in> set ts" and "a = t_rawFrom t \<or> a = t_rawTo t"
    and "\<not> truthy (ad_owner (entryOf (incorporate cache tad ts) (prop_key a)))"
  shows "a \<in> set (addressesToFetch tad ts)"
proof -
  have "\<not> truthy (ad_owner (entryOf tad (prop_key a)))"
    using assms(3) mergeCache_owner_mono unfolding incorporate_def by blast
  then have "needsFetch tad a"
    by (auto simp: needsFetch_def entryOf_def split: option.splits)
  then show ?thesis using assms(1,2) by (auto simp: set_addressesToFetch)
qed


section \<open>Lemmas: known values and mints\<close>

lemma gather_keeps_known:
  "nonNull (ad_owner (entryOf m k)) \<Longrightarrow> nonNull (ad_owner (entryOf (gather keys bs m) k))"
  "nonNull (ad_mint (entryOf m k)) \<Longrightarrow> nonNull (ad_mint (entryOf (gather keys bs m) k))"
proof -
  have step: "nonNull (ad_owner (entryOf m k)) \<Longrightarrow> nonNull (ad_owner (entryOf (gatherOne keys b m) k))"
    "nonNull (ad_mint (entryOf m k)) \<Longrightarrow> nonNull (ad_mint (entryOf (gatherOne keys b m) k))"
    for b m
    by (auto simp: entryOf_gatherOne truthy_JStr split: option.splits)
  show "nonNull (ad_owner (entryOf m k)) \<Longrightarrow> nonNull (ad_owner (entryOf (gather keys bs m) k))"
    unfolding gather_def by (induction bs arbitrary: m) (simp_all add: step)
  show "nonNull (ad_mint (entryOf m k)) \<Longrightarrow> nonNull (ad_mint (entryOf (gather keys bs m) k))"
    unfolding gather_def by (induction bs arbitrary: m) (simp_all add: step)
qed

lemma hints_keep_known:
  "nonNull (ad_owner (entryOf (buildTokenAccountMapFromBalances tx m) k)) \<Longrightarrow>
   nonNull (ad_owner (entryOf (preNetworkData tx m) k))"
  "ad_mint (entryOf (preNetworkData tx m) k) =
   ad_mint (entryOf (buildTokenAccountMapFromBalances tx m) k)"
  using ixMap_truthy[of tx m k]
  by (auto simp: entryOf_preNetworkData truthy_JStr split: option.splits)

lemma merge_keeps_known:
  "nonNull (ad_owner (entryOf tad k)) \<Longrightarrow> nonNull (ad_owner (entryOf (mergeCache c fs tad) k))"
  "nonNull (ad_mint (entryOf tad k)) \<Longrightarrow> nonNull (ad_mint (entryOf (mergeCache c fs tad) k))"
  by (auto simp: entryOf_mergeCache mergedEntry_owner mergedEntry_mint truthy_JStr
      split: option.splits)

lemma merge_null_leaves:
  "\<not> truthy (ad_owner (entryOf c k)) \<Longrightarrow>
   ad_owner (entryOf (mergeCache c fs tad) k) = ad_owner (entryOf tad k)"
  "\<not> truthy (ad_mint (entryOf c k)) \<Longrightarrow>
   ad_mint (entryOf (mergeCache c fs tad) k) = ad_mint (entryOf tad k)"
  by (cases "map_of c k";
      simp add: entryOf_mergeCache mergedEntry_owner mergedEntry_mint entryOf_def[of c k])+

lemma gather_mint_not:
  assumes "\<forall>b \<in> set bs. b_mint b \<noteq> v" and "\<And>k. ad_mint (entryOf m k) \<noteq> v"
  shows "ad_mint (entryOf (gather keys bs m) k) \<noteq> v"
  using assms unfolding gather_def
proof (induction bs arbitrary: m k)
  case Nil
  then show ?case by simp
next
  case (Cons b bs)
  have "ad_mint (entryOf (gatherOne keys b m) k') \<noteq> v" for k'
    using Cons.prems(1) Cons.prems(2)[of k']
    by (auto simp: entryOf_gatherOne split: option.splits)
  then show ?case using Cons.IH Cons.prems(1) by simp
qed

lemma balMap_mint_not:
  assumes "\<forall>b \<in> set (preTokenBalances m @ postTokenBalances m). b_mint b \<noteq> JStr UNKNOWN_MINT"
  shows "ad_mint (entryOf (buildTokenAccountMapFromBalances tx m) k) \<noteq> JStr UNKNOWN_MINT"
  unfolding buildTokenAccountMapFromBalances_def
  using assms
  by (intro gather_mint_not) (simp_all add: entryOf_empty emptyData_def)

lemma cache_mint_not:
  assumes "\<And>bytes. toBase58 w bytes \<noteq> UNKNOWN_MINT"
    and "fetchMissing w tad ts = (calls, Inr cache)"
  shows "ad_mint (entryOf cache k) \<noteq> JStr UNKNOWN_MINT"
proof (cases "map_of cache k")
  case None
  then show ?thesis by (simp add: entryOf_def emptyData_def)
next
  case (Some e)
  have "\<exists>infos n. e = cacheEntry w (infos ! n)"
  proof (cases "addressesToFetch tad ts = []")
    case True
    then show ?thesis using assms(2) Some by (simp add: fetchMissing_def)
  next
    case False
    then obtain infos where
      "cache = fold (storeInfo w (addressesToFetch tad ts) infos) [0..<length infos] []"
      using assms(2)
      by (auto simp: fetchMissing_def Let_def fetchMultipleTokenAccountInfos_def
          split: if_splits option.splits)
    then show ?thesis
      using Some
        fold_storeInfo_entries[of w "addressesToFetch tad ts" infos "[0..<length infos]" "[]" k e]
      by auto
  qed
  then show ?thesis
    using Some assms(1)
    by (auto simp: entryOf_def cacheEntry_def notResolved_def split: option.splits if_splits)
qed

lemma t_mint_backfill:
  "t_mint (backfill kb t) =
     (if t_mint t = JStr UNKNOWN_MINT then
        (if truthy (ad_mint (entryOf kb (prop_key (t_rawFrom t))))
         then ad_mint (entryOf kb (prop_key (t_rawFrom t)))
         else if truthy (ad_mint (entryOf kb (prop_key (t_rawTo t))))
         then ad_mint (entryOf kb (prop_key (t_rawTo t)))
         else t_mint t)
      else t_mint t)"
  by (simp add: backfill_def Let_def fixMint_def fixDecimals_def takeDecimals_def
      split: option.splits)

lemma needsFetch_key: "prop_key a = prop_key a' \<Longrightarrow> needsFetch tad a = needsFetch tad a'"
  by (simp add: needsFetch_def)

lemma endpoint_fetched_iff:
  assumes "t \<in> set ts" and "a = t_rawFrom t \<or> a = t_rawTo t"
  shows "prop_key a \<in> prop_key ` set (addressesToFetch tad ts) \<longleftrightarrow> a \<in> set (addressesToFetch tad ts)"
proof
  assume "prop_key a \<in> prop_key ` set (addressesToFetch tad ts)"
  then obtain a' where "a' \<in> set (addressesToFetch tad ts)" "prop_key a = prop_key a'" by auto
  then have "needsFetch tad a"
    using needsFetch_key[of a a' tad] by (auto simp: set_addressesToFetch)
  then show "a \<in> set (addressesToFetch tad ts)"
    using assms by (auto simp: set_addressesToFetch)
qed auto

lemma kb_mint_supplied:
  assumes "t \<in> set (rawTransfers tx m incl)" and "a = t_rawFrom t \<or> a = t_rawTo t"
  shows "truthy (ad_mint (entryOf (incorporate cache (preNetworkData tx m) (rawTransfers tx m incl))
            (prop_key a))) \<longleftrightarrow>
     mintSupplied (buildTokenAccountMapFromBalances tx m) cache
       (addressesToFetch (preNetworkData tx m) (rawTransfers tx m incl)) a"
  using endpoint_fetched_iff[OF assms, of "preNetworkData tx m"]
  by (auto simp: incorporate_def entryOf_mergeCache mergedEntry_mint mintSupplied_def
      hints_keep_known(2) entryOf_def[of cache] emptyData_def split: option.splits)

lemma kb_mint_not:
  assumes "\<forall>b \<in> set (preTokenBalances m @ postTokenBalances m). b_mint b \<noteq> JStr UNKNOWN_MINT"
    and "\<And>bytes. toBase58 w bytes \<noteq> UNKNOWN_MINT"
    and "fetchMissing w (preNetworkData tx m) ts = (calls, Inr cache)"
  shows "ad_mint (entryOf (incorporate cache (preNetworkData tx m) ts) k) \<noteq> JStr UNKNOWN_MINT"
  using balMap_mint_not[OF assms(1), of tx k] cache_mint_not[OF assms(2,3), of k]
  by (auto simp: incorporate_def entryOf_mergeCache mergedEntry_mint hints_keep_known(2)
      entryOf_def[of cache] split: option.splits)

section \<open>The example runs, evaluated\<close>

lemma checked_meta: "meta checkedTx = Some checkedMeta"
  by (simp add: checkedTx_def)

lemma checked_raw: "rawTransfers checkedTx checkedMeta True =
   [\<lparr>t_from = JStr ''C1'', t_to = JStr ''C2'', t_mint = JStr ''MintX'', t_amount = ''1000000'',
     t_decimals = 6, t_rawFrom = JStr ''C1'', t_rawTo = JStr ''C2''\<rparr>]"
  by code_simp

lemma checked_pre: "preNetworkData checkedTx checkedMeta =
   [(''C1'', \<lparr>ad_mint = JStr ''MintX'', ad_owner = JStr ''OwnerA'', ad_decimals = Some 6\<rparr>)]"
  by code_simp

lemma checked_fetch:
  "fetchMissing notFoundWorld (preNetworkData checkedTx checkedMeta)
     (rawTransfers checkedTx checkedMeta True) =
   ([[JStr ''C2'']], Inr [(''C2'', notResolved)])"
  by code_simp

lemma checked_run: "parseTransfersFromSignature notFoundWorld (Some checkedTx) True =
  ([[JStr ''C2'']],
   Inr [\<lparr>fromTokenAccount = JStr ''C1'', toTokenAccount = JStr ''C2'',
         fromUserAccount = JStr ''OwnerA'', toUserAccount = JStr ''C2'',
         r_amount = ''1000000'', r_mint = JStr ''MintX'', r_decimals = 6,
         uiAmount = Some (''1000000'', 6)\<rparr>])"
  by code_simp

lemma notFound_accepts: "PublicKey_accepts notFoundWorld a \<Longrightarrow> truthy a"
  by (simp add: notFoundWorld_def)

lemma notFound_base58: "toBase58 notFoundWorld bytes \<noteq> UNKNOWN_MINT"
  by (simp add: notFoundWorld_def UNKNOWN_MINT_def)

lemma discover_base58: "toBase58 discoverWorld bytes \<noteq> UNKNOWN_MINT"
  by (simp add: discoverWorld_def UNKNOWN_MINT_def)

lemma plain_meta: "meta plainTx = Some plainMeta"
  by (simp add: plainTx_def)

lemma plain_raw: "rawTransfers plainTx plainMeta True =
   [\<lparr>t_from = JStr ''C1'', t_to = JStr ''C2'', t_mint = JStr ''UNKNOWN_MINT'', t_amount = ''500'',
     t_decimals = 0, t_rawFrom = JStr ''C1'', t_rawTo = JStr ''C2''\<rparr>]"
  by code_simp

lemma plain_toFetch:
  "addressesToFetch (preNetworkData plainTx plainMeta) (rawTransfers plainTx plainMeta True) =
     [JStr ''C1'', JStr ''C2'']"
  by code_simp

lemma plain_snapshots:
  "\<forall>b \<in> set (preTokenBalances plainMeta @ postTokenBalances plainMeta).
      b_mint b \<noteq> JStr UNKNOWN_MINT"
  by (simp add: plainMeta_def UNKNOWN_MINT_def)

lemma plain_notFound_fetch:
  "fetchMissing notFoundWorld (preNetworkData plainTx plainMeta)
     (rawTransfers plainTx plainMeta True) =
   ([[JStr ''C1'', JStr ''C2'']], Inr [(''C1'', notResolved), (''C2'', notResolved)])"
  by code_simp

lemma plain_notFound_run: "parseTransfersFromSignature notFoundWorld (Some plainTx) True =
  ([[JStr ''C1'', JStr ''C2'']],
   Inr [\<lparr>fromTokenAccount = JStr ''C1'', toTokenAccount = JStr ''C2'',
         fromUserAccount = JStr ''C1'', toUserAccount = JStr ''C2'',
         r_amount = ''500'', r_mint = JStr ''UNKNOWN_MINT'', r_decimals = 0,
         uiAmount = Some (''500'', 0)\<rparr>])"
  by code_simp

lemma plain_discover_fetch:
  "fetchMissing discoverWorld (preNetworkData plainTx plainMeta)
     (rawTransfers plainTx plainMeta True) =
   ([[JStr ''C1'', JStr ''C2'']],
    Inr [(''C1'', notResolved),
         (''C2'', \<lparr>ad_mint = JStr ''MintY'', ad_owner = JStr ''OwnerY'', ad_decimals = None\<rparr>)])"
  by code_simp

lemma plain_discover_run: "parseTransfersFromSignature discoverWorld (Some plainTx) True =
  ([[JStr ''C1'', JStr ''C2'']],
   Inr [\<lparr>fromTokenAccount = JStr ''C1'', toTokenAccount = JStr ''C2'',
         fromUserAccount = JStr ''C1'', toUserAccount = JStr ''OwnerY'',
         r_amount = ''500'', r_mint = JStr ''MintY'', r_decimals = 0,
         uiAmount = Some (''500'', 0)\<rparr>])"
  by code_simp

section \<open>The claims\<close>

subsection \<open>C1: displayed owners\<close>

text \<open>
  Claim C1. In a run that returns records, the displayed \<open>fromUserAccount\<close> and
  \<open>toUserAccount\<close> of every record equal the owner that the knowledge base (the
  \<open>tokenAccountData\<close> after the on-chain results have been merged) holds for the raw
  source or destination container, when that entry exists and its owner is not null,
  and otherwise equal the raw container address of the instruction; and they are never
  empty strings. An address without a known owner has been sent to the lookup, so it
  went through the \<open>PublicKey\<close> constructor: the one thing assumed of the library is
  that the constructor accepts non-empty strings only.
\<close>

theorem displayed_owners:
  assumes "meta tx = Some m"
    and "fetchMissing w (preNetworkData tx m) (rawTransfers tx m incl) = (calls, Inr cache)"
    and "\<And>a. PublicKey_accepts w a \<Longrightarrow> truthy a"
    and "i < length (rawTransfers tx m incl)"
  shows "\<exists>out. parseTransfersFromSignature w (Some tx) incl = (calls, Inr out) \<and>
      length out = length (rawTransfers tx m incl) \<and>
      fromUserAccount (out ! i) =
        (case map_of (incorporate cache (preNetworkData tx m) (rawTransfers tx m incl))
                (prop_key (t_rawFrom (rawTransfers tx m incl ! i))) of
           None \<Rightarrow> t_rawFrom (rawTransfers tx m incl ! i)
         | Some e \<Rightarrow> if nonNull (ad_owner e) then ad_owner e
                     else t_rawFrom (rawTransfers tx m incl ! i)) \<and>
      toUserAccount (out ! i) =
        (case map_of (incorporate cache (preNetworkData tx m) (rawTransfers tx m incl))
                (prop_key (t_rawTo (rawTransfers tx m incl ! i))) of
           None \<Rightarrow> t_rawTo (rawTransfers tx m incl ! i)
         | Some e \<Rightarrow> if nonNull (ad_owner e) then ad_owner e
                     else t_rawTo (rawTransfers tx m incl ! i)) \<and>
      (\<exists>s. fromUserAccount (out ! i) = JStr s \<and> s \<noteq> []) \<and>
      (\<exists>s. toUserAccount (out ! i) = JStr s \<and> s \<noteq> [])"
proof -
  let ?ts = "rawTransfers tx m incl"
  let ?pre = "preNetworkData tx m"
  let ?kb = "incorporate cache ?pre ?ts"
  let ?t = "?ts ! i"
  let ?out = "reconcile w ?kb ?ts"
  have tin: "?t \<in> set ?ts" using assms(4) by simp
  have raw: "t_from ?t = t_rawFrom ?t" "t_to ?t = t_rawTo ?t"
    using rawTransfers_from_raw[OF tin] by simp_all
  have run: "parseTransfersFromSignature w (Some tx) incl = (calls, Inr ?out)"
    using assms(1,2) by (simp add: parseTransfersFromSignature_def resolveRun_Inr)
  have ok: "unsetOrString (ad_owner (entryOf ?kb k))" for k
    unfolding incorporate_def by (rule mergeCache_owner_ok) (rule preNetworkData_owner_ok)
  have nn: "map_of ?kb k = Some e \<Longrightarrow> nonNull (ad_owner e) = truthy (ad_owner e)" for k e
    using ok[of k] by (simp add: entryOf_def unsetOrString_nonNull)
  have from_eq: "fromUserAccount (?out ! i) =
        (case map_of ?kb (prop_key (t_rawFrom ?t)) of
           None \<Rightarrow> t_rawFrom ?t
         | Some e \<Rightarrow> if nonNull (ad_owner e) then ad_owner e else t_rawFrom ?t)"
    using assms(4) nn
    by (simp add: reconcile_nth finish_def t_from_backfill rewriteOwners_fields raw
        split: option.splits)
  have to_eq: "toUserAccount (?out ! i) =
        (case map_of ?kb (prop_key (t_rawTo ?t)) of
           None \<Rightarrow> t_rawTo ?t
         | Some e \<Rightarrow> if nonNull (ad_owner e) then ad_owner e else t_rawTo ?t)"
    using assms(4) nn
    by (simp add: reconcile_nth finish_def t_from_backfill rewriteOwners_fields raw
        split: option.splits)
  have endpoint: "truthy (case map_of ?kb (prop_key a) of
           None \<Rightarrow> a
         | Some e \<Rightarrow> if nonNull (ad_owner e) then ad_owner e else a)"
    if a: "a = t_rawFrom ?t \<or> a = t_rawTo ?t" for a
  proof (cases "truthy (ad_owner (entryOf ?kb (prop_key a)))")
    case True
    then show ?thesis
      using nn[of "prop_key a"]
      by (auto simp: entryOf_def emptyData_def split: option.splits)
  next
    case False
    have "a \<in> set (addressesToFetch ?pre ?ts)"
      using unresolved_endpoint_fetched[OF tin a False] .
    then have "truthy a"
      using fetchMissing_accepts[OF assms(2)] assms(3) by blast
    then show ?thesis
      using False nn[of "prop_key a"]
      by (auto simp: entryOf_def split: option.splits)
  qed
  have "truthy (fromUserAccount (?out ! i))" "truthy (toUserAccount (?out ! i))"
    using endpoint[of "t_rawFrom ?t"] endpoint[of "t_rawTo ?t"] from_eq to_eq by simp_all
  then have "(\<exists>s. fromUserAccount (?out ! i) = JStr s \<and> s \<noteq> [])"
    "(\<exists>s. toUserAccount (?out ! i) = JStr s \<and> s \<noteq> [])"
    by (simp_all add: truthy_JStr)
  then show ?thesis
    using run from_eq to_eq by (simp add: length_reconcile)
qed

theorem displayed_owners_witness:
  "parseTransfersFromSignature notFoundWorld (Some checkedTx) True =
     ([[JStr ''C2'']],
      Inr [\<lparr>fromTokenAccount = JStr ''C1'', toTokenAccount = JStr ''C2'',
            fromUserAccount = JStr ''OwnerA'', toUserAccount = JStr ''C2'',
            r_amount = ''1000000'', r_mint = JStr ''MintX'', r_decimals = 6,
            uiAmount = Some (''1000000'', 6)\<rparr>]) \<and>
   map_of (incorporate [(''C2'', notResolved)] (preNetworkData checkedTx checkedMeta)
            (rawTransfers checkedTx checkedMeta True)) ''C1'' =
     Some \<lparr>ad_mint = JStr ''MintX'', ad_owner = JStr ''OwnerA'', ad_decimals = Some 6\<rparr> \<and>
   map_of (incorporate [(''C2'', notResolved)] (preNetworkData checkedTx checkedMeta)
            (rawTransfers checkedTx checkedMeta True)) ''C2'' = Some emptyData"
proof -
  have kb1: "map_of (incorporate [(''C2'', notResolved)] (preNetworkData checkedTx checkedMeta)
            (rawTransfers checkedTx checkedMeta True)) ''C1'' =
     Some \<lparr>ad_mint = JStr ''MintX'', ad_owner = JStr ''OwnerA'', ad_decimals = Some 6\<rparr>"
    by code_simp
  have kb2: "map_of (incorporate [(''C2'', notResolved)] (preNetworkData checkedTx checkedMeta)
            (rawTransfers checkedTx checkedMeta True)) ''C2'' = Some emptyData"
    by code_simp
  have len: "0 < length (rawTransfers checkedTx checkedMeta True)"
    by (simp add: checked_raw)
  from displayed_owners[OF checked_meta checked_fetch notFound_accepts len]
  obtain out where
    "parseTransfersFromSignature notFoundWorld (Some checkedTx) True = ([[JStr ''C2'']], Inr out)"
    by blast
  with checked_run kb1 kb2 show ?thesis by simp
qed

subsection \<open>C2: backfill\<close>

text \<open>
  Claim C2. The backfill of an event is the mint rule followed by the decimals rule,
  each as the specification words it (the decimals rule reads the decimals as the mint
  rule left them); and an event whose mint is not the sentinel and whose decimals are
  not 0 comes out unchanged.
\<close>

theorem backfill_as_specified:
  "backfill tad t =
     spec_decimalsBackfill (entryOf tad (prop_key (t_rawFrom t))) (entryOf tad (prop_key (t_rawTo t)))
       (spec_mintBackfill (entryOf tad (prop_key (t_rawFrom t))) (entryOf tad (prop_key (t_rawTo t))) t)
   \<and> (t_mint t \<noteq> JStr UNKNOWN_MINT \<and> t_decimals t \<noteq> 0 \<longrightarrow> backfill tad t = t)"
  by (simp add: backfill_def Let_def fixMint_spec fixDecimals_spec)
    (simp add: spec_mintBackfill_def spec_decimalsBackfill_def)

theorem backfill_as_specified_witness:
  "t_mint mintAEvent \<noteq> JStr UNKNOWN_MINT \<and> t_decimals mintAEvent \<noteq> 0 \<and>
   backfill knownData mintAEvent = mintAEvent \<and>
   backfill knownData unknownEvent = unknownEvent\<lparr>t_mint := JStr ''MintX'', t_decimals := 6\<rparr>"
proof -
  have a: "t_mint mintAEvent \<noteq> JStr UNKNOWN_MINT \<and> t_decimals mintAEvent \<noteq> 0"
    by (simp add: mintAEvent_def UNKNOWN_MINT_def)
  have b: "backfill knownData unknownEvent =
      unknownEvent\<lparr>t_mint := JStr ''MintX'', t_decimals := 6\<rparr>"
    by code_simp
  from backfill_as_specified[of knownData mintAEvent] a
  have "backfill knownData mintAEvent = mintAEvent" by blast
  with a b show ?thesis by simp
qed

subsection \<open>C3: a static hint overrides the snapshot's owner\<close>

text \<open>
  Claim C3. For every container in the static-hint map, the pre-network knowledge base
  has an entry whose owner is the hint's owner, whatever the balance snapshots said,
  and whose mint and decimals are those recorded from the snapshots (unset when the
  snapshots have nothing on the container).
\<close>

theorem hint_owner_overrides:
  assumes "map_of (buildTokenAccountMapFromInstructions tx m) a = Some hintOwner"
  shows "\<exists>e. map_of (preNetworkData tx m) a = Some e \<and>
           ad_owner e = hintOwner \<and>
           ad_mint e = ad_mint (entryOf (buildTokenAccountMapFromBalances tx m) a) \<and>
           ad_decimals e = ad_decimals (entryOf (buildTokenAccountMapFromBalances tx m) a)"
  using assms by (simp add: preNetworkData_def unify_lookup distinct_ixMap distinct_balMap)

theorem hint_owner_overrides_witness:
  "map_of (buildTokenAccountMapFromInstructions checkedTx checkedMeta) ''C1'' =
     Some (JStr ''OwnerA'') \<and>
   map_of (buildTokenAccountMapFromBalances checkedTx checkedMeta) ''C1'' =
     Some \<lparr>ad_mint = JStr ''MintX'', ad_owner = JStr ''OwnerB'', ad_decimals = Some 6\<rparr> \<and>
   map_of (preNetworkData checkedTx checkedMeta) ''C1'' =
     Some \<lparr>ad_mint = JStr ''MintX'', ad_owner = JStr ''OwnerA'', ad_decimals = Some 6\<rparr>"
proof -
  have h: "map_of (buildTokenAccountMapFromInstructions checkedTx checkedMeta) ''C1'' =
     Some (JStr ''OwnerA'')"
    by code_simp
  have b: "map_of (buildTokenAccountMapFromBalances checkedTx checkedMeta) ''C1'' =
     Some \<lparr>ad_mint = JStr ''MintX'', ad_owner = JStr ''OwnerB'', ad_decimals = Some 6\<rparr>"
    by code_simp
  from hint_owner_overrides[OF h] obtain e where
    "map_of (preNetworkData checkedTx checkedMeta) ''C1'' = Some e"
    "ad_owner e = JStr ''OwnerA''"
    "ad_mint e = ad_mint (entryOf (buildTokenAccountMapFromBalances checkedTx checkedMeta) ''C1'')"
    "ad_decimals e =
       ad_decimals (entryOf (buildTokenAccountMapFromBalances checkedTx checkedMeta) ''C1'')"
    by blast
  then show ?thesis using h b by (simp add: entryOf_def)
qed

subsection \<open>C4: one batched lookup\<close>



subsection \<open>C5: what the resolver records for a returned account\<close>

text \<open>
  Claim C5. When the addresses are public keys with distinct names and the lookup
  returns one result for each, the cache holds, for the address at each position:
  \<open>{ owner: null, mint: null }\<close> if the result is \<open>null\<close>, or its owning program is not
  the token program, or its data is shorter than 64 bytes; and otherwise the mint
  decoded from the bytes at positions 0 to 31 and the owner decoded from the bytes
  at positions 32 to 63.
\<close>

theorem cache_entry_per_account:
  assumes "distinct (map prop_key accts)" and "list_all (PublicKey_accepts w) accts"
    and "getMultipleAccountsInfo w accts = Some infos" and "length infos = length accts"
    and "i < length accts"
  shows "\<exists>cache. fetchMultipleTokenAccountInfos w accts [] = ([accts], Inr cache) \<and>
     map_of cache (prop_key (accts ! i)) =
       Some (case infos ! i of
               None \<Rightarrow> \<lparr>ad_mint = JNull, ad_owner = JNull, ad_decimals = None\<rparr>
             | Some ai \<Rightarrow>
                 if ai_owner ai \<noteq> TOKEN_PROGRAM_ID \<or> length (ai_data ai) < 64
                 then \<lparr>ad_mint = JNull, ad_owner = JNull, ad_decimals = None\<rparr>
                 else \<lparr>ad_mint = JStr (toBase58 w (map (\<lambda>j. ai_data ai ! j) [0..<32])),
                       ad_owner = JStr (toBase58 w (map (\<lambda>j. ai_data ai ! j) [32..<64])),
                       ad_decimals = None\<rparr>)"
proof -
  let ?cache = "fold (storeInfo w accts infos) [0..<length infos] []"
  have run: "fetchMultipleTokenAccountInfos w accts [] = ([accts], Inr ?cache)"
    using assms(2,3) by (simp add: fetchMultipleTokenAccountInfos_def)
  have d: "distinct (map (\<lambda>n. prop_key (addrAt accts n)) [0..<length infos])"
    using distinct_keys_upt[OF assms(1), of "length infos"] assms(4) by simp
  have "map_of ?cache (prop_key (addrAt accts i)) = Some (cacheEntry w (infos ! i))"
    using fold_storeInfo_lookup[OF d, of i] assms(4,5) by simp
  then have "map_of ?cache (prop_key (accts ! i)) = Some (cacheEntry w (infos ! i))"
    using assms(5) by (simp add: addrAt_def)
  then show ?thesis
    using run by (simp add: cacheEntry_cases)
qed

theorem cache_entry_per_account_witness:
  "distinct (map prop_key [JStr ''C1'', JStr ''C2'']) \<and>
   list_all (PublicKey_accepts discoverWorld) [JStr ''C1'', JStr ''C2''] \<and>
   getMultipleAccountsInfo discoverWorld [JStr ''C1'', JStr ''C2''] =
     Some [None, Some \<lparr>ai_owner = TOKEN_PROGRAM_ID, ai_data = tokenAccountBytes\<rparr>] \<and>
   fetchMultipleTokenAccountInfos discoverWorld [JStr ''C1'', JStr ''C2''] [] =
     ([[JStr ''C1'', JStr ''C2'']],
      Inr [(''C1'', \<lparr>ad_mint = JNull, ad_owner = JNull, ad_decimals = None\<rparr>),
           (''C2'', \<lparr>ad_mint = JStr ''MintY'', ad_owner = JStr ''OwnerY'', ad_decimals = None\<rparr>)])"
proof -
  have d: "distinct (map prop_key [JStr ''C1'', JStr ''C2''])" by simp
  have a: "list_all (PublicKey_accepts discoverWorld) [JStr ''C1'', JStr ''C2'']"
    by (simp add: discoverWorld_def)
  have g: "getMultipleAccountsInfo discoverWorld [JStr ''C1'', JStr ''C2''] =
     Some [None, Some \<lparr>ai_owner = TOKEN_PROGRAM_ID, ai_data = tokenAccountBytes\<rparr>]"
    by (simp add: discoverWorld_def)
  have l: "length [None, Some \<lparr>ai_owner = TOKEN_PROGRAM_ID, ai_data = tokenAccountBytes\<rparr>] =
      length [JStr ''C1'', JStr ''C2'']"
    by simp
  have i: "1 < length [JStr ''C1'', JStr ''C2'']" by simp
  have run: "fetchMultipleTokenAccountInfos discoverWorld [JStr ''C1'', JStr ''C2''] [] =
     ([[JStr ''C1'', JStr ''C2'']],
      Inr [(''C1'', \<lparr>ad_mint = JNull, ad_owner = JNull, ad_decimals = None\<rparr>),
           (''C2'', \<lparr>ad_mint = JStr ''MintY'', ad_owner = JStr ''OwnerY'', ad_decimals = None\<rparr>)])"
    by code_simp
  from cache_entry_per_account[OF d a g l i] obtain cache where
    "fetchMultipleTokenAccountInfos discoverWorld [JStr ''C1'', JStr ''C2''] [] =
       ([[JStr ''C1'', JStr ''C2'']], Inr cache)"
    by blast
  with d a g run show ?thesis by simp
qed

subsection \<open>C6: when the mint stays unknown\<close>

text \<open>
  Claim C6. In a run that returns records, where no balance snapshot and no decoded
  account reports the sentinel string itself as a mint: the mint of a record is the
  sentinel exactly when the decoder gave the event the sentinel (the instruction named
  no mint) and no data source supplied a mint for its source or for its destination
  container. So the sentinel appears only when nothing supplied a mint, and then it is
  passed on unchanged.
\<close>

theorem unknown_mint_only_unresolved:
  assumes "meta tx = Some m"
    and "fetchMissing w (preNetworkData tx m) (rawTransfers tx m incl) = (calls, Inr cache)"
    and "i < length (rawTransfers tx m incl)"
    and "\<forall>b \<in> set (preTokenBalances m @ postTokenBalances m). b_mint b \<noteq> JStr UNKNOWN_MINT"
    and "\<And>bytes. toBase58 w bytes \<noteq> UNKNOWN_MINT"
  shows "\<exists>out. parseTransfersFromSignature w (Some tx) incl = (calls, Inr out) \<and>
      (r_mint (out ! i) = JStr UNKNOWN_MINT \<longleftrightarrow>
         t_mint (rawTransfers tx m incl ! i) = JStr UNKNOWN_MINT \<and>
         \<not> mintSupplied (buildTokenAccountMapFromBalances tx m) cache
             (addressesToFetch (preNetworkData tx m) (rawTransfers tx m incl))
             (t_rawFrom (rawTransfers tx m incl ! i)) \<and>
         \<not> mintSupplied (buildTokenAccountMapFromBalances tx m) cache
             (addressesToFetch (preNetworkData tx m) (rawTransfers tx m incl))
             (t_rawTo (rawTransfers tx m incl ! i)))"
proof -
  let ?ts = "rawTransfers tx m incl"
  let ?kb = "incorporate cache (preNetworkData tx m) ?ts"
  let ?t = "?ts ! i"
  let ?out = "reconcile w ?kb ?ts"
  have tin: "?t \<in> set ?ts" using assms(3) by simp
  have run: "parseTransfersFromSignature w (Some tx) incl = (calls, Inr ?out)"
    using assms(1,2) by (simp add: parseTransfersFromSignature_def resolveRun_Inr)
  have mint: "r_mint (?out ! i) = t_mint (backfill ?kb (rewriteOwners ?kb ?t))"
    using assms(3) by (simp add: reconcile_nth finish_def)
  have ns: "ad_mint (entryOf ?kb k) \<noteq> JStr UNKNOWN_MINT" for k
    using kb_mint_not[OF assms(4,5,2)] .
  have sf: "truthy (ad_mint (entryOf ?kb (prop_key (t_rawFrom ?t)))) \<longleftrightarrow>
      mintSupplied (buildTokenAccountMapFromBalances tx m) cache
        (addressesToFetch (preNetworkData tx m) ?ts) (t_rawFrom ?t)"
    using kb_mint_supplied[OF tin] by blast
  have st: "truthy (ad_mint (entryOf ?kb (prop_key (t_rawTo ?t)))) \<longleftrightarrow>
      mintSupplied (buildTokenAccountMapFromBalances tx m) cache
        (addressesToFetch (preNetworkData tx m) ?ts) (t_rawTo ?t)"
    using kb_mint_supplied[OF tin] by blast
  have "r_mint (?out ! i) = JStr UNKNOWN_MINT \<longleftrightarrow>
         t_mint ?t = JStr UNKNOWN_MINT \<and>
         \<not> truthy (ad_mint (entryOf ?kb (prop_key (t_rawFrom ?t)))) \<and>
         \<not> truthy (ad_mint (entryOf ?kb (prop_key (t_rawTo ?t))))"
    using ns by (auto simp: mint t_mint_backfill rewriteOwners_fields)
  then show ?thesis
    using run sf st by simp
qed

theorem unknown_mint_only_unresolved_witness:
  "r_mint (reconcile notFoundWorld
      (incorporate [(''C1'', notResolved), (''C2'', notResolved)]
         (preNetworkData plainTx plainMeta) (rawTransfers plainTx plainMeta True))
      (rawTransfers plainTx plainMeta True) ! 0) = JStr UNKNOWN_MINT \<and>
   t_mint (rawTransfers plainTx plainMeta True ! 0) = JStr UNKNOWN_MINT \<and>
   \<not> mintSupplied (buildTokenAccountMapFromBalances plainTx plainMeta)
       [(''C1'', notResolved), (''C2'', notResolved)] [JStr ''C1'', JStr ''C2''] (JStr ''C1'') \<and>
   \<not> mintSupplied (buildTokenAccountMapFromBalances plainTx plainMeta)
       [(''C1'', notResolved), (''C2'', notResolved)] [JStr ''C1'', JStr ''C2''] (JStr ''C2'') \<and>
   snd (parseTransfersFromSignature discoverWorld (Some plainTx) True) =
     Inr [\<lparr>fromTokenAccount = JStr ''C1'', toTokenAccount = JStr ''C2'',
           fromUserAccount = JStr ''C1'', toUserAccount = JStr ''OwnerY'',
           r_amount = ''500'', r_mint = JStr ''MintY'', r_decimals = 0,
           uiAmount = Some (''500'', 0)\<rparr>] \<and>
   mintSupplied (buildTokenAccountMapFromBalances plainTx plainMeta)
     [(''C1'', notResolved),
      (''C2'', \<lparr>ad_mint = JStr ''MintY'', ad_owner = JStr ''OwnerY'', ad_decimals = None\<rparr>)]
     [JStr ''C1'', JStr ''C2''] (JStr ''C2'')"
proof -
  have len: "0 < length (rawTransfers plainTx plainMeta True)"
    by (simp add: plain_raw)
  have raw: "t_mint (rawTransfers plainTx plainMeta True ! 0) = JStr UNKNOWN_MINT"
    "t_rawFrom (rawTransfers plainTx plainMeta True ! 0) = JStr ''C1''"
    "t_rawTo (rawTransfers plainTx plainMeta True ! 0) = JStr ''C2''"
    by (simp_all add: plain_raw UNKNOWN_MINT_def)
  have sup: "mintSupplied (buildTokenAccountMapFromBalances plainTx plainMeta)
     [(''C1'', notResolved),
      (''C2'', \<lparr>ad_mint = JStr ''MintY'', ad_owner = JStr ''OwnerY'', ad_decimals = None\<rparr>)]
     [JStr ''C1'', JStr ''C2''] (JStr ''C2'')"
    by code_simp
  have n1: "\<not> mintSupplied (buildTokenAccountMapFromBalances plainTx plainMeta)
       [(''C1'', notResolved), (''C2'', notResolved)] [JStr ''C1'', JStr ''C2''] (JStr ''C1'')"
    by code_simp
  have n2: "\<not> mintSupplied (buildTokenAccountMapFromBalances plainTx plainMeta)
       [(''C1'', notResolved), (''C2'', notResolved)] [JStr ''C1'', JStr ''C2''] (JStr ''C2'')"
    by code_simp
  from unknown_mint_only_unresolved[OF plain_meta plain_notFound_fetch len plain_snapshots
      notFound_base58]
  obtain out where
    out: "parseTransfersFromSignature notFoundWorld (Some plainTx) True =
            ([[JStr ''C1'', JStr ''C2'']], Inr out)"
    and iff: "r_mint (out ! 0) = JStr UNKNOWN_MINT \<longleftrightarrow>
         t_mint (rawTransfers plainTx plainMeta True ! 0) = JStr UNKNOWN_MINT \<and>
         \<not> mintSupplied (buildTokenAccountMapFromBalances plainTx plainMeta)
             [(''C1'', notResolved), (''C2'', notResolved)]
             (addressesToFetch (preNetworkData plainTx plainMeta)
                (rawTransfers plainTx plainMeta True))
             (t_rawFrom (rawTransfers plainTx plainMeta True ! 0)) \<and>
         \<not> mintSupplied (buildTokenAccountMapFromBalances plainTx plainMeta)
             [(''C1'', notResolved), (''C2'', notResolved)]
             (addressesToFetch (preNetworkData plainTx plainMeta)
                (rawTransfers plainTx plainMeta True))
             (t_rawTo (rawTransfers plainTx plainMeta True ! 0))"
    by blast
  have "out = reconcile notFoundWorld
      (incorporate [(''C1'', notResolved), (''C2'', notResolved)]
         (preNetworkData plainTx plainMeta) (rawTransfers plainTx plainMeta True))
      (rawTransfers plainTx plainMeta True)"
    using out plain_meta plain_notFound_fetch
    by (simp add: parseTransfersFromSignature_def resolveRun_Inr)
  then have "r_mint (reconcile notFoundWorld
      (incorporate [(''C1'', notResolved), (''C2'', notResolved)]
         (preNetworkData plainTx plainMeta) (rawTransfers plainTx plainMeta True))
      (rawTransfers plainTx plainMeta True) ! 0) = JStr UNKNOWN_MINT"
    using iff raw n1 n2 by (simp add: plain_toFetch)
  then show ?thesis
    using raw(1) n1 n2 sup plain_discover_run by simp
qed

subsection \<open>C7: the token event of a transfer instruction\<close>

text \<open>
  Claim C7. An instruction with a parsed payload whose type is \<open>transfer\<close>,
  \<open>transferChecked\<close> or \<open>transferCheckedWithFee\<close> yields, first, a token event whose
  source is the payload's \<open>source\<close> or else its \<open>authority\<close>, whose destination is the
  payload's \<open>destination\<close>, whose amount is the payload's \<open>amount\<close>, else the nested
  \<open>tokenAmount.amount\<close>, else \<open>"0"\<close>, whose mint is the payload's \<open>mint\<close>, else the
  sentinel, and whose decimals are the nested \<open>tokenAmount.decimals\<close>, else 0. "Else"
  is JavaScript's \<open>||\<close>: the alternative is taken when the field is missing, \<open>null\<close> or
  the empty string.
\<close>

theorem decoder_token_event:
  assumes "ix_parsed ix = Some p" and "p_info p = Some i"
    and "p_type p = JStr ''transfer'' \<or> p_type p = JStr ''transferChecked'' \<or>
         p_type p = JStr ''transferCheckedWithFee''"
  shows "\<exists>ev rest. parseInstructionTransfers ix incl = ev # rest \<and>
     t_rawFrom ev = (if truthy (info_source i) then info_source i else info_authority i) \<and>
     t_rawTo ev = info_destination i \<and>
     t_from ev = t_rawFrom ev \<and> t_to ev = t_rawTo ev \<and>
     JStr (t_amount ev) =
       (if truthy (info_amount i) then info_amount i
        else (case info_tokenAmount i of
                Some ta \<Rightarrow> if truthy (ta_amount ta) then ta_amount ta else JStr ''0''
              | None \<Rightarrow> JStr ''0'')) \<and>
     t_mint ev = (if truthy (info_mint i) then info_mint i else JStr UNKNOWN_MINT) \<and>
     t_decimals ev =
       (case info_tokenAmount i of
          Some ta \<Rightarrow> (case ta_decimals ta of Some d \<Rightarrow> d | None \<Rightarrow> 0)
        | None \<Rightarrow> 0)"
proof -
  have ty: "truthy (p_type p)" "isTokenTransferType (p_type p)"
    using assms(3) by (auto simp: isTokenTransferType_def)
  have str: "truthy a \<Longrightarrow> JStr (String_jstr a) = a" for a
    by (cases a) auto
  let ?ev = "tokenEvent i"
  have "parseInstructionTransfers ix incl =
      ?ev # ((if incl \<and> p_type p = JStr ''transfer'' \<and> lamports_truthy i
                  then [solEvent i (info_destination i)] else []) @
                 (if incl \<and> p_type p = JStr ''createAccount'' \<and> lamports_truthy i
                  then [solEvent i (info_newAccount i)] else []))"
    using assms(1,2) ty by (simp add: parseInstructionTransfers_def)
  moreover have "t_rawFrom ?ev = (if truthy (info_source i) then info_source i else info_authority i)"
    by (simp add: tokenEvent_def jor_def Let_def)
  moreover have "t_rawTo ?ev = info_destination i" "t_from ?ev = t_rawFrom ?ev" "t_to ?ev = t_rawTo ?ev"
    by (simp_all add: tokenEvent_def Let_def)
  moreover have "JStr (t_amount ?ev) =
       (if truthy (info_amount i) then info_amount i
        else (case info_tokenAmount i of
                Some ta \<Rightarrow> if truthy (ta_amount ta) then ta_amount ta else JStr ''0''
              | None \<Rightarrow> JStr ''0''))"
    by (auto simp: tokenEvent_def jor_def Let_def tokenAmount_amount_def str split: option.splits)
  moreover have "t_mint ?ev = (if truthy (info_mint i) then info_mint i else JStr UNKNOWN_MINT)"
    by (simp add: tokenEvent_def jor_def Let_def)
  moreover have "t_decimals ?ev =
       (case info_tokenAmount i of
          Some ta \<Rightarrow> (case ta_decimals ta of Some d \<Rightarrow> d | None \<Rightarrow> 0)
        | None \<Rightarrow> 0)"
    by (auto simp: tokenEvent_def Let_def tokenAmount_decimals_def split: option.splits)
  ultimately show ?thesis by blast
qed

theorem decoder_token_event_witness:
  "ix_parsed (parsedIx ''transferChecked'' checkedInfo) =
     Some \<lparr>p_type = JStr ''transferChecked'', p_info = Some checkedInfo\<rparr> \<and>
   parseInstructionTransfers (parsedIx ''transferChecked'' checkedInfo) True =
     [\<lparr>t_from = JStr ''C1'', t_to = JStr ''C2'', t_mint = JStr ''MintX'', t_amount = ''1000000'',
       t_decimals = 6, t_rawFrom = JStr ''C1'', t_rawTo = JStr ''C2''\<rparr>] \<and>
   parseInstructionTransfers (parsedIx ''transfer'' plainInfo) True =
     [\<lparr>t_from = JStr ''C1'', t_to = JStr ''C2'', t_mint = JStr ''UNKNOWN_MINT'', t_amount = ''500'',
       t_decimals = 0, t_rawFrom = JStr ''C1'', t_rawTo = JStr ''C2''\<rparr>]"
proof -
  have h1: "ix_parsed (parsedIx ''transferChecked'' checkedInfo) =
      Some \<lparr>p_type = JStr ''transferChecked'', p_info = Some checkedInfo\<rparr>"
    by (simp add: parsedIx_def)
  have h2: "p_info \<lparr>p_type = JStr ''transferChecked'', p_info = Some checkedInfo\<rparr> = Some checkedInfo"
    by simp
  have h3: "p_type \<lparr>p_type = JStr ''transferChecked'', p_info = Some checkedInfo\<rparr> = JStr ''transfer'' \<or>
      p_type \<lparr>p_type = JStr ''transferChecked'', p_info = Some checkedInfo\<rparr> = JStr ''transferChecked'' \<or>
      p_type \<lparr>p_type = JStr ''transferChecked'', p_info = Some checkedInfo\<rparr> = JStr ''transferCheckedWithFee''"
    by simp
  have run: "parseInstructionTransfers (parsedIx ''transferChecked'' checkedInfo) True =
     [\<lparr>t_from = JStr ''C1'', t_to = JStr ''C2'', t_mint = JStr ''MintX'', t_amount = ''1000000'',
       t_decimals = 6, t_rawFrom = JStr ''C1'', t_rawTo = JStr ''C2''\<rparr>]"
    by code_simp
  have run2: "parseInstructionTransfers (parsedIx ''transfer'' plainInfo) True =
     [\<lparr>t_from = JStr ''C1'', t_to = JStr ''C2'', t_mint = JStr ''UNKNOWN_MINT'', t_amount = ''500'',
       t_decimals = 0, t_rawFrom = JStr ''C1'', t_rawTo = JStr ''C2''\<rparr>]"
    by code_simp
  from decoder_token_event[OF h1 h2 h3, of True] obtain ev rest where
    "parseInstructionTransfers (parsedIx ''transferChecked'' checkedInfo) True = ev # rest"
    by blast
  with h1 run run2 show ?thesis by simp
qed

subsection \<open>C8: the scaled amount\<close>




subsection \<open>C9: known owners and mints are never erased\<close>

text \<open>
  Claim C9. A container's owner or mint that is not null in the knowledge base is not
  null after any later merge. Merging the on-chain results (the first four
  statements): a known owner or mint stays known, and where the cached owner or mint is
  \<open>null\<close> or missing, the value in the knowledge base is left as it was. The same holds
  for the earlier steps: overlaying the static hints on the balance map, and gathering
  further balance snapshots.
\<close>

theorem known_values_kept:
  "(nonNull (ad_owner (entryOf tad k)) \<longrightarrow>
      nonNull (ad_owner (entryOf (mergeCache onChainCache toFetch tad) k))) \<and>
   (nonNull (ad_mint (entryOf tad k)) \<longrightarrow>
      nonNull (ad_mint (entryOf (mergeCache onChainCache toFetch tad) k))) \<and>
   (\<not> truthy (ad_owner (entryOf onChainCache k)) \<longrightarrow>
      ad_owner (entryOf (mergeCache onChainCache toFetch tad) k) = ad_owner (entryOf tad k)) \<and>
   (\<not> truthy (ad_mint (entryOf onChainCache k)) \<longrightarrow>
      ad_mint (entryOf (mergeCache onChainCache toFetch tad) k) = ad_mint (entryOf tad k)) \<and>
   (nonNull (ad_owner (entryOf (buildTokenAccountMapFromBalances tx m) k)) \<longrightarrow>
      nonNull (ad_owner (entryOf (preNetworkData tx m) k))) \<and>
   (nonNull (ad_mint (entryOf (buildTokenAccountMapFromBalances tx m) k)) \<longrightarrow>
      nonNull (ad_mint (entryOf (preNetworkData tx m) k))) \<and>
   (nonNull (ad_owner (entryOf balMap k)) \<longrightarrow>
      nonNull (ad_owner (entryOf (gather keys balArr balMap) k))) \<and>
   (nonNull (ad_mint (entryOf balMap k)) \<longrightarrow>
      nonNull (ad_mint (entryOf (gather keys balArr balMap) k)))"
  using merge_keeps_known[of tad k onChainCache toFetch]
    merge_null_leaves[of onChainCache k toFetch tad]
    hints_keep_known[of tx m k] gather_keeps_known[of balMap k keys balArr]
  by simp

theorem known_values_kept_witness:
  "nonNull (ad_owner (entryOf knownData ''C1'')) \<and>
   nonNull (ad_mint (entryOf knownData ''C1'')) \<and>
   \<not> truthy (ad_owner (entryOf [(''C1'', notResolved)] ''C1'')) \<and>
   \<not> truthy (ad_mint (entryOf [(''C1'', notResolved)] ''C1'')) \<and>
   entryOf (mergeCache [(''C1'', notResolved)] [JStr ''C1''] knownData) ''C1'' =
     \<lparr>ad_mint = JStr ''MintX'', ad_owner = JStr ''OwnerA'', ad_decimals = Some 6\<rparr> \<and>
   entryOf (buildTokenAccountMapFromBalances checkedTx checkedMeta) ''C1'' =
     \<lparr>ad_mint = JStr ''MintX'', ad_owner = JStr ''OwnerB'', ad_decimals = Some 6\<rparr> \<and>
   entryOf (preNetworkData checkedTx checkedMeta) ''C1'' =
     \<lparr>ad_mint = JStr ''MintX'', ad_owner = JStr ''OwnerA'', ad_decimals = Some 6\<rparr> \<and>
   entryOf (gather [KeyString ''C1''] [emptySnapshot] knownData) ''C1'' =
     \<lparr>ad_mint = JStr ''MintX'', ad_owner = JStr ''OwnerA'', ad_decimals = Some 6\<rparr>"
proof -
  have a: "nonNull (ad_owner (entryOf knownData ''C1''))"
    "nonNull (ad_mint (entryOf knownData ''C1''))"
    "\<not> truthy (ad_owner (entryOf [(''C1'', notResolved)] ''C1''))"
    "\<not> truthy (ad_mint (entryOf [(''C1'', notResolved)] ''C1''))"
    by code_simp+
  have b: "entryOf (mergeCache [(''C1'', notResolved)] [JStr ''C1''] knownData) ''C1'' =
     \<lparr>ad_mint = JStr ''MintX'', ad_owner = JStr ''OwnerA'', ad_decimals = Some 6\<rparr>"
    by code_simp
  have c: "entryOf (buildTokenAccountMapFromBalances checkedTx checkedMeta) ''C1'' =
     \<lparr>ad_mint = JStr ''MintX'', ad_owner = JStr ''OwnerB'', ad_decimals = Some 6\<rparr>"
    by code_simp
  have d: "entryOf (preNetworkData checkedTx checkedMeta) ''C1'' =
     \<lparr>ad_mint = JStr ''MintX'', ad_owner = JStr ''OwnerA'', ad_decimals = Some 6\<rparr>"
    by code_simp
  have e: "entryOf (gather [KeyString ''C1''] [emptySnapshot] knownData) ''C1'' =
     \<lparr>ad_mint = JStr ''MintX'', ad_owner = JStr ''OwnerA'', ad_decimals = Some 6\<rparr>"
    by code_simp
  from known_values_kept[of knownData "''C1''" "[(''C1'', notResolved)]" "[JStr ''C1'']"
      checkedTx checkedMeta knownData "[KeyString ''C1'']" "[emptySnapshot]"] a b c d e
  show ?thesis by simp
qed

subsection \<open>C10: the raw container addresses\<close>

text \<open>
  Claim C10. In a run that returns records there is one record per raw transfer event,
  in order, and its \<open>fromTokenAccount\<close> and \<open>toTokenAccount\<close> are the \<open>rawFrom\<close> and
  \<open>rawTo\<close> the decoder captured. Rewriting the owners changes only \<open>from\<close> and \<open>to\<close>
  of an event, and the backfill only its mint and decimals.
\<close>

theorem raw_addresses_kept:
  assumes "meta tx = Some m"
    and "fetchMissing w (preNetworkData tx m) (rawTransfers tx m incl) = (calls, Inr cache)"
    and "i < length (rawTransfers tx m incl)"
  shows "\<exists>out. parseTransfersFromSignature w (Some tx) incl = (calls, Inr out) \<and>
      length out = length (rawTransfers tx m incl) \<and>
      fromTokenAccount (out ! i) = t_rawFrom (rawTransfers tx m incl ! i) \<and>
      toTokenAccount (out ! i) = t_rawTo (rawTransfers tx m incl ! i) \<and>
      (\<forall>kb t. rewriteOwners kb t =
          t\<lparr>t_from := t_from (rewriteOwners kb t), t_to := t_to (rewriteOwners kb t)\<rparr>) \<and>
      (\<forall>kb t. backfill kb t =
          t\<lparr>t_mint := t_mint (backfill kb t), t_decimals := t_decimals (backfill kb t)\<rparr>)"
proof -
  let ?ts = "rawTransfers tx m incl"
  let ?out = "reconcile w (incorporate cache (preNetworkData tx m) ?ts) ?ts"
  have run: "parseTransfersFromSignature w (Some tx) incl = (calls, Inr ?out)"
    using assms(1,2) by (simp add: parseTransfersFromSignature_def resolveRun_Inr)
  have "fromTokenAccount (?out ! i) = t_rawFrom (?ts ! i)"
    "toTokenAccount (?out ! i) = t_rawTo (?ts ! i)"
    using assms(3) by (simp_all add: reconcile_nth finish_def t_from_backfill rewriteOwners_fields)
  then show ?thesis
    using run rewriteOwners_frame backfill_frame by (simp add: length_reconcile)
qed

theorem raw_addresses_kept_witness:
  "map t_rawFrom (rawTransfers plainTx plainMeta True) = [JStr ''C1''] \<and>
   map t_rawTo (rawTransfers plainTx plainMeta True) = [JStr ''C2''] \<and>
   parseTransfersFromSignature discoverWorld (Some plainTx) True =
     ([[JStr ''C1'', JStr ''C2'']],
      Inr [\<lparr>fromTokenAccount = JStr ''C1'', toTokenAccount = JStr ''C2'',
            fromUserAccount = JStr ''C1'', toUserAccount = JStr ''OwnerY'',
            r_amount = ''500'', r_mint = JStr ''MintY'', r_decimals = 0,
            uiAmount = Some (''500'', 0)\<rparr>])"
proof -
  have len: "0 < length (rawTransfers plainTx plainMeta True)"
    by (simp add: plain_raw)
  from raw_addresses_kept[OF plain_meta plain_discover_fetch len] obtain out where
    "parseTransfersFromSignature discoverWorld (Some plainTx) True =
       ([[JStr ''C1'', JStr ''C2'']], Inr out)"
    by blast
  with plain_discover_run plain_raw show ?thesis by simp
qed

end
